theory Spec2Isabelle
  imports Main "HOL-Library.Word"
begin

section \<open>JavaScript values used by index.js\<close>

text \<open>
  A JavaScript string is a sequence of UTF-16 code units; a Buffer is a sequence of
  bytes. A rejection value (the \<open>err\<close> of a catch block) is opaque to the program: it
  is only logged, so any string stands for it.
\<close>

type_synonym jsstring = "16 word list"
type_synonym byte = "8 word"
type_synonym error = jsstring

definition js :: "string \<Rightarrow> jsstring" where
  "js s = map of_char s"

text \<open>\<open>s.startsWith(p)\<close>.\<close>

definition startsWith :: "jsstring \<Rightarrow> jsstring \<Rightarrow> bool" where
  "startsWith s p = (take (length p) s = p)"

text \<open>\<open>s.split(sep)\<close> for a one-character separator; \<open>''.split('_')\<close> is \<open>['']\<close>.\<close>

fun js_split :: "16 word \<Rightarrow> jsstring \<Rightarrow> jsstring list" where
  "js_split sep [] = [[]]"
| "js_split sep (c # cs) =
     (if c = sep then [] # js_split sep cs
      else (case js_split sep cs of
              [] \<Rightarrow> [[c]]
            | f # fs \<Rightarrow> (c # f) # fs))"

text \<open>\<open>xs[n]\<close> on an array: \<open>undefined\<close> (here \<open>None\<close>) out of range.\<close>

definition at_index :: "'a list \<Rightarrow> nat \<Rightarrow> 'a option" where
  "at_index xs n = (if n < length xs then Some (xs ! n) else None)"

subsection \<open>The regular expression of line 104 and \<open>trim\<close>\<close>

text \<open>\<open>\d\<close> is an ASCII digit.\<close>

definition isDigit :: "16 word \<Rightarrow> bool" where
  "isDigit c = (0x30 \<le> c \<and> c \<le> 0x39)"

text \<open>
  \<open>\s\<close> and the characters removed by \<open>trim()\<close>: ECMAScript WhiteSpace and
  LineTerminator.
\<close>

definition isSpace :: "16 word \<Rightarrow> bool" where
  "isSpace c =
     (c = 0x09 \<or> c = 0x0A \<or> c = 0x0B \<or> c = 0x0C \<or> c = 0x0D \<or> c = 0x20 \<or> c = 0xA0
      \<or> c = 0x1680 \<or> (0x2000 \<le> c \<and> c \<le> 0x200A) \<or> c = 0x2028 \<or> c = 0x2029
      \<or> c = 0x202F \<or> c = 0x205F \<or> c = 0x3000 \<or> c = 0xFEFF)"

text \<open>
  One attempt of \<open>/<@!?\d+>\s*/\<close> at the start of \<open>s\<close>: the text after the match, or
  \<open>None\<close>. The quantifiers are greedy; no shorter choice of \<open>!?\<close> or \<open>\d+\<close> can
  succeed where the longest fails, so there is nothing to backtrack into.
\<close>

definition match_mention :: "jsstring \<Rightarrow> jsstring option" where
  "match_mention s =
     (case s of
        c1 # c2 # r \<Rightarrow>
          if c1 = 0x3C \<and> c2 = 0x40 then
            (let r' = (case r of [] \<Rightarrow> r | c3 # r3 \<Rightarrow> if c3 = 0x21 then r3 else r);
                 ds = takeWhile isDigit r';
                 rest = dropWhile isDigit r'
             in if ds = [] then None
                else (case rest of
                        [] \<Rightarrow> None
                      | c # rest' \<Rightarrow>
                          if c = 0x3E then Some (dropWhile isSpace rest') else None))
          else None
      | _ \<Rightarrow> None)"

text \<open>
  \<open>s.replace(/<@!?\d+>\s*/, '')\<close>: the regular expression has no \<open>g\<close> flag, so the
  leftmost match only is replaced by the empty string.
\<close>

fun replace_mention :: "jsstring \<Rightarrow> jsstring" where
  "replace_mention [] = []"
| "replace_mention (c # cs) =
     (case match_mention (c # cs) of
        Some rest \<Rightarrow> rest
      | None \<Rightarrow> c # replace_mention cs)"

definition trim :: "jsstring \<Rightarrow> jsstring" where
  "trim s = dropWhile isSpace (rev (dropWhile isSpace (rev s)))"

section \<open>The objects of the chat platform and of the model client\<close>

record user =
  user_id :: jsstring
  bot :: bool
  username :: jsstring

record channel =
  channel_id :: jsstring
  isThread :: bool
  parentId :: "jsstring option"

record attachment =
  contentType :: "jsstring option"
  url :: jsstring

text \<open>
  \<open>mentions_users\<close> holds the keys of \<open>message.mentions.users\<close>; \<open>attachments\<close> is
  the attachment collection in its order, \<open>first()\<close> being its head.
\<close>

record message =
  author :: user
  channel :: channel
  mentions_users :: "jsstring set"
  content :: jsstring
  attachments :: "attachment list"

record interaction =
  isButton :: bool
  customId :: jsstring
  interaction_user :: user

datatype ButtonStyle = Primary | Secondary | Success | Danger | Link

datatype ChannelType = PublicThread | PrivateThread

record button =
  button_customId :: jsstring
  button_label :: jsstring
  button_style :: ButtonStyle
  button_emoji :: jsstring

text \<open>A content part handed to the model: the text part, or inline data with its MIME type.\<close>

datatype part = Text jsstring | InlineData jsstring jsstring

text \<open>
  \<open>reply\<close> takes a plain string (line 147) or an options object with \<open>content\<close> and
  \<open>ephemeral\<close> (lines 116, 152, 166, 172).
\<close>

datatype payload = Plain jsstring | Options jsstring bool

section \<open>Effects\<close>

text \<open>
  Every asynchronous call the two handlers make. \<open>GenerateContent\<close> stands for lines
  119 to 122 (the model is obtained with the fixed persona and model name, asked for the
  content parts, and the text of its response is read): one call that gives a text or
  fails. \<open>ThreadSend\<close> carries the thread returned by \<open>startThread\<close>, the content and
  the action row.
\<close>

datatype call =
    MessageDelete
  | AuthorSend jsstring
  | SendTyping
  | AxiosGet jsstring
  | GenerateContent "part list"
  | StartThread jsstring ChannelType
  | ThreadSend jsstring jsstring "button list"
  | MessageReply payload
  | InteractionReply payload
  | ChannelDelete

text \<open>
  What one run of a handler leaves behind, in order: a call that resolved, a call that
  rejected, a line written with \<open>console.error\<close> (its label and the error).
\<close>

datatype event = Did call | Failed call error | ConsoleError jsstring error

text \<open>
  The world of one event: the configuration (\<open>process.env.ALLOWED_CHANNEL_ID\<close>,
  \<open>client.user.id\<close>) and, for every call, whether it resolves (\<open>Inr\<close>, with its
  value) or rejects (\<open>Inl\<close>). No handler makes the same call with the same arguments
  twice, so a function of the arguments loses nothing.
\<close>

record world =
  ALLOWED_CHANNEL_ID :: jsstring
  client_user_id :: jsstring
  message_delete :: "error + unit"
  author_send :: "jsstring \<Rightarrow> error + unit"
  channel_sendTyping :: "error + unit"
  axios_get :: "jsstring \<Rightarrow> error + byte list"
  generateContent :: "part list \<Rightarrow> error + jsstring"
  message_startThread :: "jsstring \<Rightarrow> ChannelType \<Rightarrow> error + jsstring"
  thread_send :: "jsstring \<Rightarrow> jsstring \<Rightarrow> button list \<Rightarrow> error + unit"
  message_reply :: "payload \<Rightarrow> error + unit"
  interaction_reply :: "payload \<Rightarrow> error + unit"
  channel_delete :: "error + unit"

text \<open>
  A piece of handler code: the events it leaves and either the exception it throws
  (\<open>Inl\<close>) or its value (\<open>Inr\<close>).
\<close>

type_synonym 'a io = "event list \<times> (error + 'a)"

definition resolve :: "'a \<Rightarrow> 'a io" where
  "resolve x = ([], Inr x)"

text \<open>\<open>await c\<close>: a rejection is thrown at the await.\<close>

definition await :: "call \<Rightarrow> error + 'a \<Rightarrow> 'a io" where
  "await c r = (case r of Inl e \<Rightarrow> ([Failed c e], Inl e) | Inr x \<Rightarrow> ([Did c], Inr x))"

text \<open>Sequencing: an exception skips the rest.\<close>

definition and_then :: "'a io \<Rightarrow> ('a \<Rightarrow> 'b io) \<Rightarrow> 'b io" where
  "and_then p f =
     (case p of
        (tr, Inl e) \<Rightarrow> (tr, Inl e)
      | (tr, Inr x) \<Rightarrow> (case f x of (tr', r) \<Rightarrow> (tr @ tr', r)))"

text \<open>\<open>try { p } catch (err) { h err }\<close>.\<close>

definition try_catch :: "'a io \<Rightarrow> (error \<Rightarrow> 'a io) \<Rightarrow> 'a io" where
  "try_catch p h =
     (case p of
        (tr, Inl e) \<Rightarrow> (case h e of (tr', r) \<Rightarrow> (tr @ tr', r))
      | (tr, Inr x) \<Rightarrow> (tr, Inr x))"

text \<open>
  \<open>return c\<close> with no \<open>await\<close>: the call is made, and its promise is the value
  returned. Nothing is thrown where the \<open>return\<close> stands, so an enclosing \<open>try\<close> does
  not see a rejection of that promise.
\<close>

definition return_promise :: "call \<Rightarrow> error + unit \<Rightarrow> (error + unit) io" where
  "return_promise c r =
     (case r of Inl e \<Rightarrow> ([Failed c e], Inr (Inl e)) | Inr x \<Rightarrow> ([Did c], Inr (Inr x)))"

text \<open>
  The promise of an async handler: it rejects (\<open>Some\<close>) when the body throws, or
  returns a promise that rejects; nothing handles that rejection, the event emitter
  having dropped the promise.
\<close>

definition settle :: "(error + unit) io \<Rightarrow> event list \<times> error option" where
  "settle p =
     (case p of
        (tr, Inl e) \<Rightarrow> (tr, Some e)
      | (tr, Inr (Inl e)) \<Rightarrow> (tr, Some e)
      | (tr, Inr (Inr _)) \<Rightarrow> (tr, None))"

section \<open>Base64 of a Buffer\<close>

text \<open>
  \<open>buffer.toString('base64')\<close> is Node's, not this repository's: it is the base64
  encoding of RFC 4648 with padding. Three bytes give four characters of the alphabet;
  a last group of one or two bytes is padded with \<open>=\<close>.
\<close>

definition alphabet :: string where
  "alphabet = ''ABCDEFGHIJKLMNOPQRSTUVWXYZabcdefghijklmnopqrstuvwxyz0123456789+/''"

definition b64char :: "nat \<Rightarrow> 16 word" where
  "b64char n = of_char (alphabet ! n)"

fun toString_base64 :: "byte list \<Rightarrow> jsstring" where
  "toString_base64 [] = []"
| "toString_base64 [a] =
     (let n = unat a * 65536
      in [b64char (n div 262144), b64char (n div 4096 mod 64), 0x3D, 0x3D])"
| "toString_base64 [a, b] =
     (let n = unat a * 65536 + unat b * 256
      in [b64char (n div 262144), b64char (n div 4096 mod 64), b64char (n div 64 mod 64), 0x3D])"
| "toString_base64 (a # b # c # bs) =
     (let n = unat a * 65536 + unat b * 256 + unat c
      in [b64char (n div 262144), b64char (n div 4096 mod 64), b64char (n div 64 mod 64),
          b64char (n mod 64)] @ toString_base64 bs)"

text \<open>
  Reading base64 back, as RFC 4648 defines it (what \<open>Buffer.from(s, 'base64')\<close>
  does on a padded, well-formed string): the value of a character of the alphabet, and
  four characters giving three bytes, or two or one before padding. \<open>None\<close> is an
  ill-formed string.
\<close>

definition b64val :: "16 word \<Rightarrow> nat option" where
  "b64val c =
     (if 0x41 \<le> c \<and> c \<le> 0x5A then Some (unat c - 0x41)
      else if 0x61 \<le> c \<and> c \<le> 0x7A then Some (unat c - 0x61 + 26)
      else if 0x30 \<le> c \<and> c \<le> 0x39 then Some (unat c - 0x30 + 52)
      else if c = 0x2B then Some 62
      else if c = 0x2F then Some 63
      else None)"

fun from_base64 :: "jsstring \<Rightarrow> byte list option" where
  "from_base64 [] = Some []"
| "from_base64 (c1 # c2 # c3 # c4 # cs) =
     (case (b64val c1, b64val c2) of
        (Some v1, Some v2) \<Rightarrow>
          if c3 = 0x3D then
            (if c4 = 0x3D \<and> cs = [] then
               (let n = v1 * 262144 + v2 * 4096 in Some [of_nat (n div 65536)])
             else None)
          else
            (case b64val c3 of
               None \<Rightarrow> None
             | Some v3 \<Rightarrow>
                 if c4 = 0x3D then
                   (if cs = [] then
                      (let n = v1 * 262144 + v2 * 4096 + v3 * 64
                       in Some [of_nat (n div 65536), of_nat (n div 256 mod 256)])
                    else None)
                 else
                   (case b64val c4 of
                      None \<Rightarrow> None
                    | Some v4 \<Rightarrow>
                        (case from_base64 cs of
                           None \<Rightarrow> None
                         | Some bs \<Rightarrow>
                             (let n = v1 * 262144 + v2 * 4096 + v3 * 64 + v4
                              in Some (of_nat (n div 65536) # of_nat (n div 256 mod 256)
                                        # of_nat (n mod 256) # bs)))))
      | _ \<Rightarrow> None)"
| "from_base64 _ = None"

section \<open>index.js\<close>

subsection \<open>urlToGenerativePart (lines 61 to 70)\<close>

definition urlToGenerativePart :: "world \<Rightarrow> jsstring \<Rightarrow> jsstring \<Rightarrow> part io" where
  "urlToGenerativePart w u mimeType =
     and_then (await (AxiosGet u) (axios_get w u))
       (\<lambda>buffer. resolve (InlineData (toString_base64 buffer) mimeType))"

subsection \<open>The messageCreate handler (lines 73 to 154)\<close>

definition isAllowedChannel :: "world \<Rightarrow> message \<Rightarrow> bool" where
  "isAllowedChannel w m = (channel_id (channel m) = ALLOWED_CHANNEL_ID w)"

definition isAllowedThread :: "world \<Rightarrow> message \<Rightarrow> bool" where
  "isAllowedThread w m =
     (isThread (channel m) \<and> parentId (channel m) = Some (ALLOWED_CHANNEL_ID w))"

text \<open>\<open>message.mentions.users.has(client.user.id)\<close>.\<close>

definition mentioned :: "world \<Rightarrow> message \<Rightarrow> bool" where
  "mentioned w m = (client_user_id w \<in> mentions_users m)"

text \<open>The direct notice of line 84.\<close>

definition notice :: "message \<Rightarrow> jsstring" where
  "notice m =
     js ''Your message in the <#'' @ channel_id (channel m)
     @ js ''> channel was removed. Please only use this channel to start a new session by mentioning the bot (@KP Trades Bot).''"

text \<open>Lines 82 to 88.\<close>

definition cleanup :: "world \<Rightarrow> message \<Rightarrow> (error + unit) io" where
  "cleanup w m =
     and_then
       (try_catch
          (and_then (await MessageDelete (message_delete w))
             (\<lambda>_. await (AuthorSend (notice m)) (author_send w (notice m))))
          (\<lambda>err. ([ConsoleError (js ''Could not delete message or DM user:'') err], Inr ())))
       (\<lambda>_. resolve (Inr ()))"

text \<open>Line 104.\<close>

definition prompt_of :: "message \<Rightarrow> jsstring" where
  "prompt_of m = trim (replace_mention (content m))"

text \<open>Lines 105 to 113.\<close>

definition contentParts :: "world \<Rightarrow> message \<Rightarrow> part list io" where
  "contentParts w m =
     (case attachments m of
        [] \<Rightarrow> resolve [Text (prompt_of m)]
      | a # _ \<Rightarrow>
          (case contentType a of
             None \<Rightarrow> resolve [Text (prompt_of m)]
           | Some ct \<Rightarrow>
               if startsWith ct (js ''image/'') then
                 and_then (urlToGenerativePart w (url a) ct)
                   (\<lambda>imagePart. resolve [Text (prompt_of m), imagePart])
               else resolve [Text (prompt_of m)]))"

text \<open>Lines 131 to 135. The emoji is the four characters that the source file holds.\<close>

definition closeButton :: "message \<Rightarrow> button" where
  "closeButton m =
     \<lparr>button_customId = js ''close_thread_'' @ user_id (author m),
      button_label = js ''Close Session'',
      button_style = Danger,
      button_emoji = [0xF0, 0x178, 0x201D, 0x2019]\<rparr>"

definition thread_name :: "message \<Rightarrow> jsstring" where
  "thread_name m = js ''Private Chat with '' @ username (author m)"

definition analysis :: "message \<Rightarrow> jsstring \<Rightarrow> jsstring" where
  "analysis m text =
     js ''<@'' @ user_id (author m) @ js ''>, here is your analysis: '' @ [0x0A, 0x0A] @ text"

text \<open>Lines 124 to 148.\<close>

definition relay :: "world \<Rightarrow> message \<Rightarrow> jsstring \<Rightarrow> unit io" where
  "relay w m text =
     (if isAllowedChannel w m \<and> \<not> isThread (channel m) then
        and_then
          (await (StartThread (thread_name m) PrivateThread)
             (message_startThread w (thread_name m) PrivateThread))
          (\<lambda>thread.
             and_then
               (await (ThreadSend thread (analysis m text) [closeButton m])
                  (thread_send w thread (analysis m text) [closeButton m]))
               (\<lambda>_. await MessageDelete (message_delete w)))
      else await (MessageReply (Plain text)) (message_reply w (Plain text)))"

definition validation :: payload where
  "validation = Options (js ''Please provide a prompt when you mention me!'') True"

definition failure_notice :: payload where
  "failure_notice =
     Options (js ''An error occurred while processing your request. Please try again later.'') True"

text \<open>The body of the \<open>try\<close>, lines 102 to 148.\<close>

definition generation :: "world \<Rightarrow> message \<Rightarrow> (error + unit) io" where
  "generation w m =
     and_then (await SendTyping (channel_sendTyping w))
       (\<lambda>_. and_then (contentParts w m)
          (\<lambda>parts.
             if prompt_of m = [] \<and> length parts = 1 then
               return_promise (MessageReply validation) (message_reply w validation)
             else
               and_then (await (GenerateContent parts) (generateContent w parts))
                 (\<lambda>text. and_then (relay w m text) (\<lambda>_. resolve (Inr ())))))"

text \<open>
  The \<open>catch\<close>, lines 150 to 153: the failure notice is awaited with its own
  \<open>.catch(console.error)\<close>, which logs the rejection and resolves.
\<close>

definition on_error :: "world \<Rightarrow> error \<Rightarrow> (error + unit) io" where
  "on_error w err =
     (ConsoleError (js ''An error occurred:'') err
        # (case message_reply w failure_notice of
             Inl e \<Rightarrow> [Failed (MessageReply failure_notice) e, ConsoleError [] e]
           | Inr _ \<Rightarrow> [Did (MessageReply failure_notice)]),
      Inr (Inr ()))"

definition messageCreate :: "world \<Rightarrow> message \<Rightarrow> event list \<times> error option" where
  "messageCreate w m =
     (if bot (author m) then ([], None)
      else if isAllowedChannel w m \<and> \<not> mentioned w m then settle (cleanup w m)
      else if \<not> isAllowedChannel w m \<and> \<not> isAllowedThread w m then ([], None)
      else if isAllowedThread w m \<and> \<not> mentioned w m then ([], None)
      else if isAllowedChannel w m \<and> \<not> mentioned w m then ([], None)
      else settle (try_catch (generation w m) (on_error w)))"

subsection \<open>The interactionCreate handler (lines 157 to 177)\<close>

definition denial :: payload where
  "denial = Options (js ''You are not authorized to close this session.'') True"

definition confirmation :: payload where
  "confirmation =
     Options ([0xF0, 0x178, 0x201D, 0x2019] @ js '' This session has been closed. Deleting thread...'')
       True"

definition threadOwnerId :: "interaction \<Rightarrow> jsstring option" where
  "threadOwnerId i = at_index (js_split 0x5F (customId i)) 2"

definition interactionCreate :: "world \<Rightarrow> interaction \<Rightarrow> event list \<times> error option" where
  "interactionCreate w i =
     (if \<not> isButton i \<or> \<not> startsWith (customId i) (js ''close_thread_'') then ([], None)
      else if Some (user_id (interaction_user i)) \<noteq> threadOwnerId i then
        settle (and_then (await (InteractionReply denial) (interaction_reply w denial))
                  (\<lambda>_. resolve (Inr ())))
      else
        settle
          (and_then
             (try_catch
                (and_then (await (InteractionReply confirmation) (interaction_reply w confirmation))
                   (\<lambda>_. await ChannelDelete (channel_delete w)))
                (\<lambda>err. ([ConsoleError (js ''Failed to delete thread:'') err], Inr ())))
             (\<lambda>_. resolve (Inr ()))))"

section \<open>What a run did\<close>

text \<open>The calls of a run, resolved or not, in order.\<close>

fun call_of :: "event \<Rightarrow> call option" where
  "call_of (Did c) = Some c"
| "call_of (Failed c e) = Some c"
| "call_of (ConsoleError l e) = None"

definition calls :: "event list \<Rightarrow> call list" where
  "calls tr = List.map_filter call_of tr"

fun is_generate :: "call \<Rightarrow> bool" where
  "is_generate (GenerateContent ps) = True"
| "is_generate _ = False"

fun is_notice :: "call \<Rightarrow> bool" where
  "is_notice (AuthorSend s) = True"
| "is_notice _ = False"

fun is_startThread :: "call \<Rightarrow> bool" where
  "is_startThread (StartThread n t) = True"
| "is_startThread _ = False"

fun is_threadSend :: "call \<Rightarrow> bool" where
  "is_threadSend (ThreadSend th c bs) = True"
| "is_threadSend _ = False"

fun is_ephemeral :: "payload \<Rightarrow> bool" where
  "is_ephemeral (Options t e) = e"
| "is_ephemeral (Plain t) = False"

text \<open>What the \<open>catch\<close> of lines 150 to 153 adds to a run when the piece \<open>p\<close> throws.\<close>

definition caught :: "world \<Rightarrow> 'a io \<Rightarrow> event list" where
  "caught w p = (case snd p of Inl e \<Rightarrow> fst (on_error w e) | Inr x \<Rightarrow> [])"

text \<open>
  The test of lines 107 to 109 as a predicate: the message has attachments and the
  declared type of the first one starts with \<open>image/\<close>.
\<close>

definition first_attachment_is_image :: "message \<Rightarrow> bool" where
  "first_attachment_is_image m =
     (case attachments m of
        [] \<Rightarrow> False
      | a # _ \<Rightarrow> (case contentType a of None \<Rightarrow> False | Some ct \<Rightarrow> startsWith ct (js ''image/'')))"

section \<open>Mention tokens\<close>

text \<open>
  What the regular expression of line 104 describes: a mention token is \<open><@\<close>, an
  optional \<open>!\<close>, one or more digits, and \<open>>\<close>, whatever the digits are. A text has a
  token at its start when a token is a prefix of it.
\<close>

inductive mention_token :: "jsstring \<Rightarrow> bool" where
  plain: "ds \<noteq> [] \<Longrightarrow> list_all isDigit ds \<Longrightarrow> mention_token (js ''<@'' @ ds @ js ''>'')"
| nick: "ds \<noteq> [] \<Longrightarrow> list_all isDigit ds \<Longrightarrow> mention_token (js ''<@!'' @ ds @ js ''>'')"

definition token_at :: "jsstring \<Rightarrow> bool" where
  "token_at s = (\<exists>tok rest. s = tok @ rest \<and> mention_token tok)"

text \<open>
  The stripping as the specification words it, for comparison with line 104: only the
  mention of the bot itself, and only at the start of the text, is removed.
\<close>

definition spec_strip_leading_bot_mention :: "jsstring \<Rightarrow> jsstring \<Rightarrow> jsstring" where
  "spec_strip_leading_bot_mention botId s =
     (if startsWith s (js ''<@'' @ botId @ js ''>'') then drop (length botId + 3) s
      else if startsWith s (js ''<@!'' @ botId @ js ''>'') then drop (length botId + 4) s
      else s)"

section \<open>Sample worlds, messages and interactions\<close>

text \<open>A world in which every call resolves; the bot is user 999, the allowed channel 100.\<close>

definition happy :: world where
  "happy =
     \<lparr>ALLOWED_CHANNEL_ID = js ''100'',
      client_user_id = js ''999'',
      message_delete = Inr (),
      author_send = (\<lambda>_. Inr ()),
      channel_sendTyping = Inr (),
      axios_get = (\<lambda>_. Inr [0x89, 0x50, 0x4E, 0x47]),
      generateContent = (\<lambda>_. Inr (js ''Summary.'')),
      message_startThread = (\<lambda>_ _. Inr (js ''555'')),
      thread_send = (\<lambda>_ _ _. Inr ()),
      message_reply = (\<lambda>_. Inr ()),
      interaction_reply = (\<lambda>_. Inr ()),
      channel_delete = Inr ()\<rparr>"

definition alice :: user where
  "alice = \<lparr>user_id = js ''42'', bot = False, username = js ''alice''\<rparr>"

definition carol :: user where
  "carol = \<lparr>user_id = js ''43'', bot = False, username = js ''carol''\<rparr>"

text \<open>Another bot of the server, not this one.\<close>

definition other_bot :: user where
  "other_bot = \<lparr>user_id = js ''777'', bot = True, username = js ''ticker''\<rparr>"

definition main_channel :: channel where
  "main_channel = \<lparr>channel_id = js ''100'', isThread = False, parentId = None\<rparr>"

definition session_thread :: channel where
  "session_thread = \<lparr>channel_id = js ''555'', isThread = True, parentId = Some (js ''100'')\<rparr>"

text \<open>A bot posts in the allowed channel without mentioning this bot.\<close>

definition bot_post :: message where
  "bot_post =
     \<lparr>author = other_bot, channel = main_channel, mentions_users = {},
      content = js ''AAPL 191.20'', attachments = []\<rparr>"

text \<open>A person posts in the allowed channel without mentioning the bot.\<close>

definition hello :: message where
  "hello =
     \<lparr>author = alice, channel = main_channel, mentions_users = {},
      content = js ''hello'', attachments = []\<rparr>"

text \<open>A mention with nothing after it, in a session thread.\<close>

definition bare_mention :: message where
  "bare_mention =
     \<lparr>author = alice, channel = session_thread, mentions_users = {js ''999''},
      content = js ''<@999>'', attachments = []\<rparr>"

text \<open>The message that is answered has been removed meanwhile: every reply to it rejects.\<close>

definition reply_rejects :: world where
  "reply_rejects = happy\<lparr>message_reply := (\<lambda>_. Inl (js ''Unknown Message''))\<rparr>"

text \<open>The interaction token has expired: every reply to the interaction rejects.\<close>

definition interaction_expired :: world where
  "interaction_expired = happy\<lparr>interaction_reply := (\<lambda>_. Inl (js ''Unknown interaction''))\<rparr>"

text \<open>Carol presses the Close Session button of Alice's thread; Alice presses her own.\<close>

definition carol_click :: interaction where
  "carol_click =
     \<lparr>isButton = True, customId = js ''close_thread_42'', interaction_user = carol\<rparr>"

definition alice_click :: interaction where
  "alice_click =
     \<lparr>isButton = True, customId = js ''close_thread_42'', interaction_user = alice\<rparr>"

text \<open>Alice asks in the allowed channel, and later in her session thread.\<close>

definition ask_main :: message where
  "ask_main =
     \<lparr>author = alice, channel = main_channel, mentions_users = {js ''999''},
      content = js ''<@999> Analyze AAPL'', attachments = []\<rparr>"

definition ask_thread :: message where
  "ask_thread =
     \<lparr>author = alice, channel = session_thread, mentions_users = {js ''999''},
      content = js ''<@999> and MSFT?'', attachments = []\<rparr>"

definition png :: attachment where
  "png = \<lparr>contentType = Some (js ''image/png''), url = js ''https://cdn.example/chart.png''\<rparr>"

definition pdf :: attachment where
  "pdf = \<lparr>contentType = Some (js ''application/pdf''), url = js ''https://cdn.example/report.pdf''\<rparr>"

text \<open>A chart alone, and a chart that comes second, after a report.\<close>

definition chart_first :: message where
  "chart_first =
     \<lparr>author = alice, channel = session_thread, mentions_users = {js ''999''},
      content = js ''<@999> chart?'', attachments = [png]\<rparr>"

definition chart_second :: message where
  "chart_second =
     \<lparr>author = alice, channel = session_thread, mentions_users = {js ''999''},
      content = js ''<@999> chart?'', attachments = [pdf, png]\<rparr>"

text \<open>
  The bot is mentioned at the end of the text; another user is mentioned before the bot;
  the bot is mentioned by a reply, with no token in the text.
\<close>

definition tail_mention :: message where
  "tail_mention =
     \<lparr>author = alice, channel = session_thread, mentions_users = {js ''999''},
      content = js ''AAPL <@999>'', attachments = []\<rparr>"

definition other_mention :: message where
  "other_mention =
     \<lparr>author = alice, channel = session_thread, mentions_users = {js ''123'', js ''999''},
      content = js ''<@123> AAPL <@999>'', attachments = []\<rparr>"

definition reply_ping :: message where
  "reply_ping =
     \<lparr>author = alice, channel = session_thread, mentions_users = {js ''999''},
      content = js ''and TSLA?'', attachments = []\<rparr>"

section \<open>The pieces of a handler\<close>

lemma await_Inl [simp]: "await c (Inl e) = ([Failed c e], Inl e)"
  by (simp add: await_def)

lemma await_Inr [simp]: "await c (Inr x) = ([Did c], Inr x)"
  by (simp add: await_def)

lemma and_then_Inl [simp]: "and_then (tr, Inl e) f = (tr, Inl e)"
  by (simp add: and_then_def)

lemma and_then_Inr [simp]: "and_then (tr, Inr x) f = (tr @ fst (f x), snd (f x))"
  by (simp add: and_then_def split: prod.splits)

lemma try_catch_Inl [simp]: "try_catch (tr, Inl e) h = (tr @ fst (h e), snd (h e))"
  by (simp add: try_catch_def split: prod.splits)

lemma try_catch_Inr [simp]: "try_catch (tr, Inr x) h = (tr, Inr x)"
  by (simp add: try_catch_def)

lemma return_promise_Inl [simp]: "return_promise c (Inl e) = ([Failed c e], Inr (Inl e))"
  by (simp add: return_promise_def)

lemma return_promise_Inr [simp]: "return_promise c (Inr x) = ([Did c], Inr (Inr x))"
  by (simp add: return_promise_def)

lemma settle_simps [simp]:
  "settle (tr, Inl e) = (tr, Some e)"
  "settle (tr, Inr (Inl e)) = (tr, Some e)"
  "settle (tr, Inr (Inr u)) = (tr, None)"
  by (simp_all add: settle_def)

lemma resolve_simp [simp]: "resolve x = ([], Inr x)"
  by (simp add: resolve_def)

lemma fst_settle: "fst (settle p) = fst p"
  by (simp add: settle_def split: prod.splits sum.splits)

lemmas io_defs = await_def and_then_def try_catch_def return_promise_def settle_def resolve_def

lemma calls_simps [simp]:
  "calls [] = []"
  "calls (Did c # tr) = c # calls tr"
  "calls (Failed c e # tr) = c # calls tr"
  "calls (ConsoleError l e # tr) = calls tr"
  by (simp_all add: calls_def)

lemma calls_append [simp]: "calls (xs @ ys) = calls xs @ calls ys"
  by (simp add: calls_def map_filter_def)

section \<open>The runs of messageCreate\<close>

lemma qualifying_run:
  assumes "\<not> bot (author m)" and "mentioned w m"
    and "isAllowedChannel w m \<or> isAllowedThread w m"
  shows "messageCreate w m = settle (try_catch (generation w m) (on_error w))"
  using assms by (auto simp: messageCreate_def)

lemma on_error_calls: "calls (fst (on_error w e)) = [MessageReply failure_notice]"
  by (simp add: on_error_def split: sum.splits)

lemma contentParts_calls:
  "calls (fst (contentParts w m)) = [] \<or> (\<exists>u. calls (fst (contentParts w m)) = [AxiosGet u])"
  by (auto simp: contentParts_def urlToGenerativePart_def io_defs
      split: sum.splits list.splits option.splits)

lemma contentParts_filters:
  "filter is_startThread (calls (fst (contentParts w m))) = []"
  "filter is_threadSend (calls (fst (contentParts w m))) = []"
  "MessageDelete \<notin> set (calls (fst (contentParts w m)))"
  using contentParts_calls [of w m] by auto

lemma no_image_parts:
  "\<not> first_attachment_is_image m \<Longrightarrow> contentParts w m = ([], Inr [Text (prompt_of m)])"
  by (simp add: first_attachment_is_image_def contentParts_def split: list.splits option.splits)

text \<open>No piece but line 120 invokes the model.\<close>

lemma cleanup_no_generate: "Did (GenerateContent parts) \<notin> set (fst (cleanup w m))"
  by (simp add: cleanup_def io_defs split: sum.splits)

lemma contentParts_no_generate: "Did (GenerateContent parts) \<notin> set (fst (contentParts w m))"
  by (simp add: contentParts_def urlToGenerativePart_def io_defs
      split: sum.splits list.splits option.splits)

lemma on_error_no_generate: "Did (GenerateContent parts) \<notin> set (fst (on_error w e))"
  by (simp add: on_error_def split: sum.splits)

lemma relay_no_generate: "Did (GenerateContent parts) \<notin> set (fst (relay w m t))"
  by (simp add: relay_def io_defs split: sum.splits)

lemma caught_no_generate: "Did (GenerateContent parts) \<notin> set (caught w p)"
  by (simp add: caught_def on_error_no_generate split: sum.splits)

lemma on_error_no_send: "Did (ThreadSend th c bs) \<notin> set (fst (on_error w e))"
  by (simp add: on_error_def split: sum.splits)

lemma contentParts_no_send: "Did (ThreadSend th c bs) \<notin> set (fst (contentParts w m))"
  by (simp add: contentParts_def urlToGenerativePart_def io_defs
      split: sum.splits list.splits option.splits)

text \<open>A run in which the model was invoked and answered passed the policy.\<close>

lemma generated_policy:
  assumes "Did (GenerateContent parts) \<in> set (fst (messageCreate w m))"
  shows "\<not> bot (author m) \<and> mentioned w m \<and> (isAllowedChannel w m \<or> isAllowedThread w m)
         \<and> messageCreate w m = settle (try_catch (generation w m) (on_error w))"
  using assms cleanup_no_generate [of parts w m]
  by (auto simp: messageCreate_def fst_settle split: if_splits)

text \<open>
  Such a run is: the typing indicator, the assembly of the content parts, the model's
  answer, then the relay of lines 124 to 148 and, where the relay throws, the catch.
\<close>

lemma generated_run:
  assumes "Did (GenerateContent parts) \<in> set (fst (messageCreate w m))"
  shows "\<exists>reply. channel_sendTyping w = Inr () \<and> snd (contentParts w m) = Inr parts
      \<and> \<not> (prompt_of m = [] \<and> length parts = 1)
      \<and> generateContent w parts = Inr reply
      \<and> fst (messageCreate w m) =
          Did SendTyping # fst (contentParts w m) @ Did (GenerateContent parts)
            # fst (relay w m reply) @ caught w (relay w m reply)"
proof -
  from generated_policy [OF assms]
  have mc: "fst (messageCreate w m) = fst (try_catch (generation w m) (on_error w))"
    by (simp add: fst_settle)
  with assms
  have g: "Did (GenerateContent parts) \<in> set (fst (try_catch (generation w m) (on_error w)))"
    by simp
  show ?thesis
  proof (cases "channel_sendTyping w")
    case (Inl e)
    with g on_error_no_generate [of parts w e] show ?thesis
      by (simp add: generation_def)
  next
    case st: (Inr u)
    obtain tr r where cp: "contentParts w m = (tr, r)"
      by (cases "contentParts w m")
    from contentParts_no_generate [of parts w m] cp
    have ntr: "Did (GenerateContent parts) \<notin> set tr" by simp
    show ?thesis
    proof (cases r)
      case (Inl e)
      with g st cp ntr on_error_no_generate [of parts w e] show ?thesis
        by (simp add: generation_def)
    next
      case ps: (Inr ps)
      show ?thesis
      proof (cases "prompt_of m = [] \<and> length ps = 1")
        case True
        with g st cp ps ntr show ?thesis
          by (cases "message_reply w validation") (auto simp: generation_def)
      next
        case chk: False
        show ?thesis
        proof (cases "generateContent w ps")
          case (Inl e)
          with g st cp ps ntr chk on_error_no_generate [of parts w e] show ?thesis
            by (auto simp: generation_def)
        next
          case gen: (Inr reply)
          obtain rt rr where rl: "relay w m reply = (rt, rr)"
            by (cases "relay w m reply")
          from relay_no_generate [of parts w m reply] rl
          have nrt: "Did (GenerateContent parts) \<notin> set rt" by simp
          from caught_no_generate [of parts w "relay w m reply"] rl
          have nc: "Did (GenerateContent parts) \<notin> set (caught w (rt, rr))" by simp
          have tr_eq: "fst (try_catch (generation w m) (on_error w)) =
              Did SendTyping # tr @ Did (GenerateContent ps) # rt @ caught w (rt, rr)"
            using st cp ps chk gen rl
            by (cases rr) (auto simp: generation_def caught_def)
          with g ntr nrt nc have "parts = ps" by auto
          with tr_eq mc st cp ps chk gen rl show ?thesis by auto
        qed
      qed
    qed
  qed
qed

lemma generated_calls:
  assumes "Did (GenerateContent parts) \<in> set (fst (messageCreate w m))"
    and "generateContent w parts = Inr reply"
  shows "fst (messageCreate w m) =
          Did SendTyping # fst (contentParts w m) @ Did (GenerateContent parts)
            # fst (relay w m reply) @ caught w (relay w m reply)"
    and "calls (fst (messageCreate w m)) =
          SendTyping # calls (fst (contentParts w m)) @ GenerateContent parts
            # calls (fst (relay w m reply) @ caught w (relay w m reply))"
proof -
  from generated_run [OF assms(1)] assms(2)
  show ev: "fst (messageCreate w m) =
          Did SendTyping # fst (contentParts w m) @ Did (GenerateContent parts)
            # fst (relay w m reply) @ caught w (relay w m reply)"
    by auto
  then show "calls (fst (messageCreate w m)) =
          SendTyping # calls (fst (contentParts w m)) @ GenerateContent parts
            # calls (fst (relay w m reply) @ caught w (relay w m reply))"
    by simp
qed

text \<open>The relay from the allowed channel: its events, and its calls.\<close>

lemma relay_main_events:
  assumes "isAllowedChannel w m" and "\<not> isThread (channel m)"
  shows "fst (relay w m t) @ caught w (relay w m t) =
     (case message_startThread w (thread_name m) PrivateThread of
        Inl e \<Rightarrow> Failed (StartThread (thread_name m) PrivateThread) e # fst (on_error w e)
      | Inr th \<Rightarrow>
          Did (StartThread (thread_name m) PrivateThread) #
            (case thread_send w th (analysis m t) [closeButton m] of
               Inl e \<Rightarrow> Failed (ThreadSend th (analysis m t) [closeButton m]) e # fst (on_error w e)
             | Inr u \<Rightarrow>
                 Did (ThreadSend th (analysis m t) [closeButton m]) #
                   (case message_delete w of
                      Inl e \<Rightarrow> Failed MessageDelete e # fst (on_error w e)
                    | Inr u \<Rightarrow> [Did MessageDelete])))"
  using assms
  by (simp add: relay_def caught_def and_then_def split: sum.splits)

lemma relay_main:
  assumes "isAllowedChannel w m" and "\<not> isThread (channel m)"
  shows "calls (fst (relay w m t) @ caught w (relay w m t)) =
     StartThread (thread_name m) PrivateThread #
       (case message_startThread w (thread_name m) PrivateThread of
          Inl e \<Rightarrow> [MessageReply failure_notice]
        | Inr th \<Rightarrow>
            ThreadSend th (analysis m t) [closeButton m] #
              (case thread_send w th (analysis m t) [closeButton m] of
                 Inl e \<Rightarrow> [MessageReply failure_notice]
               | Inr u \<Rightarrow>
                   MessageDelete #
                     (case message_delete w of
                        Inl e \<Rightarrow> [MessageReply failure_notice]
                      | Inr u \<Rightarrow> [])))"
  using assms
  by (simp add: relay_def caught_def on_error_calls and_then_def split: sum.splits)

text \<open>The relay from a thread.\<close>

lemma relay_thread:
  assumes "isThread (channel m)"
  shows "calls (fst (relay w m t) @ caught w (relay w m t)) =
     MessageReply (Plain t) #
       (case message_reply w (Plain t) of Inl e \<Rightarrow> [MessageReply failure_notice] | Inr u \<Rightarrow> [])"
  using assms
  by (simp add: relay_def caught_def on_error_calls split: sum.splits)

section \<open>The identifier of the Close Session button\<close>

lemma js_split_nonempty: "js_split sep s \<noteq> []"
  by (induction s) (auto split: list.splits)

lemma hd_js_split: "hd (js_split sep s) = takeWhile (\<lambda>c. c \<noteq> sep) s"
  by (induction s) (auto split: list.splits simp: js_split_nonempty)

lemma js_split_prefix:
  "js_split 0x5F (js ''close_thread_'' @ s) = js ''close'' # js ''thread'' # js_split 0x5F s"
  using js_split_nonempty [of "0x5F" s]
  by (cases "js_split 0x5F s") (simp_all add: js_def)

text \<open>The third field is what follows the prefix, up to the next underscore.\<close>

lemma threadOwnerId_prefix:
  "customId i = js ''close_thread_'' @ s \<Longrightarrow>
   threadOwnerId i = Some (takeWhile (\<lambda>c. c \<noteq> 0x5F) s)"
  using js_split_nonempty [of "0x5F" s] hd_js_split [of "0x5F" s]
  by (cases "js_split 0x5F s") (simp_all add: threadOwnerId_def js_split_prefix at_index_def)

lemma digits_no_underscore: "list_all isDigit s \<Longrightarrow> takeWhile (\<lambda>c. c \<noteq> 0x5F) s = s"
  by (induction s) (auto simp: isDigit_def)

section \<open>The sample runs\<close>

lemma bot_post_policy:
  "bot (author bot_post)" "isAllowedChannel happy bot_post" "\<not> mentioned happy bot_post"
  by (simp_all add: isAllowedChannel_def isAllowedThread_def mentioned_def happy_def
      bot_post_def main_channel_def other_bot_def)

lemma hello_policy:
  "\<not> bot (author hello)" "isAllowedChannel happy hello" "\<not> mentioned happy hello"
  by (simp_all add: isAllowedChannel_def isAllowedThread_def mentioned_def happy_def
      hello_def main_channel_def alice_def)

lemma ask_main_policy:
  "\<not> bot (author ask_main)" "mentioned happy ask_main"
  "isAllowedChannel happy ask_main" "\<not> isThread (channel ask_main)"
  by (simp_all add: isAllowedChannel_def isAllowedThread_def mentioned_def happy_def
      ask_main_def main_channel_def alice_def)

lemma ask_thread_policy:
  "\<not> bot (author ask_thread)" "mentioned happy ask_thread"
  "isAllowedThread happy ask_thread" "\<not> isAllowedChannel happy ask_thread"
  by (simp_all add: isAllowedChannel_def isAllowedThread_def mentioned_def happy_def
      ask_thread_def session_thread_def alice_def js_def)

lemma bare_mention_policy:
  "\<not> bot (author bare_mention)" "mentioned happy bare_mention"
  "isAllowedThread happy bare_mention" "\<not> isAllowedChannel happy bare_mention"
  by (simp_all add: isAllowedChannel_def isAllowedThread_def mentioned_def happy_def
      bare_mention_def session_thread_def alice_def js_def)

lemma chart_first_policy:
  "\<not> bot (author chart_first)" "mentioned happy chart_first"
  "isAllowedThread happy chart_first" "\<not> isAllowedChannel happy chart_first"
  by (simp_all add: isAllowedChannel_def isAllowedThread_def mentioned_def happy_def
      chart_first_def session_thread_def alice_def js_def)

lemma chart_second_policy:
  "\<not> bot (author chart_second)" "mentioned happy chart_second"
  "isAllowedThread happy chart_second" "\<not> isAllowedChannel happy chart_second"
  by (simp_all add: isAllowedChannel_def isAllowedThread_def mentioned_def happy_def
      chart_second_def session_thread_def alice_def js_def)

lemmas regex_defs = prompt_of_def trim_def match_mention_def isDigit_def isSpace_def js_def

lemma ask_main_prompt: "prompt_of ask_main = js ''Analyze AAPL''"
  by (simp add: regex_defs ask_main_def)

lemma ask_thread_prompt: "prompt_of ask_thread = js ''and MSFT?''"
  by (simp add: regex_defs ask_thread_def)

lemma bare_mention_prompt: "prompt_of bare_mention = []"
  by (simp add: regex_defs bare_mention_def)

lemma chart_prompts:
  "prompt_of chart_first = js ''chart?''" "prompt_of chart_second = js ''chart?''"
  by (simp_all add: regex_defs chart_first_def chart_second_def)

section \<open>Messages of bot accounts\<close>

text \<open>
  C10. When the author of a message is flagged as a bot account (any bot, this one or
  another), the handler returns at line 74, before any policy check: the run makes no
  call at all (no delete, no direct notice, no model invocation) and the handler's
  promise resolves, wherever the message was posted and whatever it mentions.
\<close>

theorem bot_author_ignored:
  "bot (author m) \<Longrightarrow> messageCreate w m = ([], None)"
  by (simp add: messageCreate_def)

text \<open>Another bot's post in the allowed channel, with no mention, is left alone.\<close>

theorem bot_author_ignored_witness:
  "bot (author bot_post) \<and> isAllowedChannel happy bot_post \<and> \<not> mentioned happy bot_post
   \<and> messageCreate happy bot_post = ([], None)"
proof -
  have b: "bot (author bot_post)"
    by (simp add: bot_post_def other_bot_def)
  from bot_author_ignored [OF b, of happy] b show ?thesis
    by (simp add: bot_post_policy)
qed

section \<open>Channel cleanup\<close>

text \<open>
  C1, as amended. For every message in the allowed channel that does not mention the
  bot and whose author is not a bot account: the delete of the message is the first call
  of the run; once it has resolved, the direct notice of line 84 goes to the author, and
  there is no other call; the model is never invoked, and the handler's promise
  resolves.
\<close>

theorem cleanup_of_unmentioned:
  assumes "\<not> bot (author m)" and "isAllowedChannel w m" and "\<not> mentioned w m"
  shows "calls (fst (messageCreate w m)) =
           MessageDelete # (if isl (message_delete w) then [] else [AuthorSend (notice m)])
         \<and> \<not> list_ex is_generate (calls (fst (messageCreate w m)))
         \<and> snd (messageCreate w m) = None"
proof (cases "message_delete w")
  case (Inl e)
  with assms show ?thesis by (simp add: messageCreate_def cleanup_def)
next
  case (Inr u)
  with assms show ?thesis
    by (cases "author_send w (notice m)") (simp_all add: messageCreate_def cleanup_def)
qed

theorem cleanup_of_unmentioned_witness:
  "\<not> bot (author hello) \<and> isAllowedChannel happy hello \<and> \<not> mentioned happy hello
   \<and> calls (fst (messageCreate happy hello)) = [MessageDelete, AuthorSend (notice hello)]
   \<and> snd (messageCreate happy hello) = None"
  using cleanup_of_unmentioned [of hello happy]
  by (simp add: hello_policy) (simp add: happy_def)

text \<open>
  C1 as stated fails for a message whose author is a bot account: posted in the allowed
  channel without a mention, it is neither deleted nor answered with a notice.
\<close>

theorem cleanup_skips_bots_counterexample:
  "isAllowedChannel happy bot_post \<and> \<not> mentioned happy bot_post
   \<and> MessageDelete \<notin> set (calls (fst (messageCreate happy bot_post)))
   \<and> \<not> list_ex is_notice (calls (fst (messageCreate happy bot_post)))"
proof -
  have "bot (author bot_post)"
    by (simp add: bot_post_def other_bot_def)
  then have "fst (messageCreate happy bot_post) = []"
    by (simp add: messageCreate_def)
  then show ?thesis
    by (simp add: bot_post_policy)
qed

section \<open>Closing a session\<close>

text \<open>
  C2. For every activation of a button whose identifier starts with \<open>close_thread_\<close>:
  when the activating user's id differs from the id embedded in the identifier (its
  third field between underscores), the only call is the ephemeral denial, so nothing
  is deleted; when the ids are equal, the ephemeral confirmation is sent and, that
  reply having resolved, the thread is deleted. A thread is deleted only for the user
  whose id is embedded, and where the confirmation resolves, exactly for that user. The
  identifier that line 132 builds for an author embeds that author's id.
\<close>

theorem close_session_owner_only:
  assumes "isButton i" and "startsWith (customId i) (js ''close_thread_'')"
  shows "(Some (user_id (interaction_user i)) \<noteq> threadOwnerId i \<longrightarrow>
            calls (fst (interactionCreate w i)) = [InteractionReply denial])
       \<and> (Some (user_id (interaction_user i)) = threadOwnerId i \<longrightarrow>
            calls (fst (interactionCreate w i)) =
              InteractionReply confirmation
                # (if isl (interaction_reply w confirmation) then [] else [ChannelDelete]))
       \<and> (ChannelDelete \<in> set (calls (fst (interactionCreate w i))) \<longrightarrow>
            Some (user_id (interaction_user i)) = threadOwnerId i)
       \<and> (\<not> isl (interaction_reply w confirmation) \<longrightarrow>
            (ChannelDelete \<in> set (calls (fst (interactionCreate w i))) \<longleftrightarrow>
             Some (user_id (interaction_user i)) = threadOwnerId i))
       \<and> is_ephemeral denial \<and> is_ephemeral confirmation
       \<and> (list_all isDigit (user_id (author m)) \<and> customId i = button_customId (closeButton m) \<longrightarrow>
            threadOwnerId i = Some (user_id (author m)))"
proof -
  have d: "Some (user_id (interaction_user i)) \<noteq> threadOwnerId i \<Longrightarrow>
      calls (fst (interactionCreate w i)) = [InteractionReply denial]"
    using assms by (cases "interaction_reply w denial") (simp_all add: interactionCreate_def)
  have c: "Some (user_id (interaction_user i)) = threadOwnerId i \<Longrightarrow>
      calls (fst (interactionCreate w i)) =
        InteractionReply confirmation
          # (if isl (interaction_reply w confirmation) then [] else [ChannelDelete])"
    using assms
    by (cases "interaction_reply w confirmation"; cases "channel_delete w")
       (simp_all add: interactionCreate_def)
  have o: "ChannelDelete \<in> set (calls (fst (interactionCreate w i))) \<Longrightarrow>
      Some (user_id (interaction_user i)) = threadOwnerId i"
    using d by fastforce
  have x: "\<not> isl (interaction_reply w confirmation) \<Longrightarrow>
      Some (user_id (interaction_user i)) = threadOwnerId i \<Longrightarrow>
      ChannelDelete \<in> set (calls (fst (interactionCreate w i)))"
    using c by simp
  have e: "is_ephemeral denial \<and> is_ephemeral confirmation"
    by (simp add: denial_def confirmation_def)
  have b: "list_all isDigit (user_id (author m)) \<Longrightarrow>
      customId i = button_customId (closeButton m) \<Longrightarrow>
      threadOwnerId i = Some (user_id (author m))"
    by (simp add: threadOwnerId_prefix closeButton_def digits_no_underscore)
  from d c o x e b show ?thesis by blast
qed

text \<open>
  Alice's own click closes her thread; Carol's click on the same button is denied and
  deletes nothing. The button is the one made for Alice's message.
\<close>

theorem close_session_owner_only_witness:
  "isButton alice_click \<and> startsWith (customId alice_click) (js ''close_thread_'')
   \<and> customId alice_click = button_customId (closeButton ask_main)
   \<and> list_all isDigit (user_id (author ask_main))
   \<and> threadOwnerId alice_click = Some (user_id (interaction_user alice_click))
   \<and> \<not> isl (interaction_reply happy confirmation)
   \<and> calls (fst (interactionCreate happy alice_click)) = [InteractionReply confirmation, ChannelDelete]
   \<and> isButton carol_click \<and> startsWith (customId carol_click) (js ''close_thread_'')
   \<and> Some (user_id (interaction_user carol_click)) \<noteq> threadOwnerId carol_click
   \<and> calls (fst (interactionCreate happy carol_click)) = [InteractionReply denial]
   \<and> ChannelDelete \<notin> set (calls (fst (interactionCreate happy carol_click)))"
proof -
  have a1: "isButton alice_click" and c1: "isButton carol_click"
    by (simp_all add: alice_click_def carol_click_def)
  have a2: "startsWith (customId alice_click) (js ''close_thread_'')"
    and c2: "startsWith (customId carol_click) (js ''close_thread_'')"
    by (simp_all add: startsWith_def alice_click_def carol_click_def js_def)
  have a3: "customId alice_click = button_customId (closeButton ask_main)"
    by (simp add: alice_click_def closeButton_def ask_main_def alice_def js_def)
  have a4: "list_all isDigit (user_id (author ask_main))"
    by (simp add: ask_main_def alice_def js_def isDigit_def)
  have h: "\<not> isl (interaction_reply happy confirmation)"
    by (simp add: happy_def)
  from close_session_owner_only [OF a1 a2, of happy ask_main] a3 a4
  have own: "threadOwnerId alice_click = Some (user_id (author ask_main))"
    by blast
  then have a5: "threadOwnerId alice_click = Some (user_id (interaction_user alice_click))"
    by (simp add: ask_main_def alice_click_def)
  from close_session_owner_only [OF a1 a2, of happy ask_main] a5 h
  have a6: "calls (fst (interactionCreate happy alice_click))
      = [InteractionReply confirmation, ChannelDelete]"
    by simp
  from own have c3: "Some (user_id (interaction_user carol_click)) \<noteq> threadOwnerId carol_click"
    by (simp add: threadOwnerId_def alice_click_def carol_click_def carol_def ask_main_def
        alice_def js_def)
  from close_session_owner_only [OF c1 c2, of happy ask_main] c3
  have c4: "calls (fst (interactionCreate happy carol_click)) = [InteractionReply denial]"
    by blast
  from a1 a2 a3 a4 a5 h a6 c1 c2 c3 c4 show ?thesis by simp
qed

section \<open>Failures that leave a handler\<close>

text \<open>
  C7 does not hold of the code. The validation reply of line 116 is returned, not
  awaited, inside the \<open>try\<close>: when it rejects, the \<open>catch\<close> of line 150 does not run
  and the handler's promise rejects. The denial of line 166 is awaited outside any
  \<open>try\<close>: when it rejects, the handler's promise rejects as well. Both runs, at a bare
  mention in a session thread whose reply fails and at a stranger's click whose
  interaction has expired:
\<close>

theorem rejection_escapes_handler:
  "messageCreate reply_rejects bare_mention =
     ([Did SendTyping, Failed (MessageReply validation) (js ''Unknown Message'')],
      Some (js ''Unknown Message''))
   \<and> interactionCreate interaction_expired carol_click =
     ([Failed (InteractionReply denial) (js ''Unknown interaction'')],
      Some (js ''Unknown interaction''))"
proof -
  have a: "\<not> isAllowedChannel reply_rejects bare_mention"
    and t: "isAllowedThread reply_rejects bare_mention"
    and m: "mentioned reply_rejects bare_mention"
    by (simp_all add: isAllowedChannel_def isAllowedThread_def mentioned_def bare_mention_def
        session_thread_def reply_rejects_def happy_def js_def)
  have g: "generation reply_rejects bare_mention =
      ([Did SendTyping, Failed (MessageReply validation) (js ''Unknown Message'')],
       Inr (Inl (js ''Unknown Message'')))"
    using bare_mention_prompt
    by (simp add: generation_def contentParts_def reply_rejects_def happy_def bare_mention_def)
  have 1: "messageCreate reply_rejects bare_mention =
     ([Did SendTyping, Failed (MessageReply validation) (js ''Unknown Message'')],
      Some (js ''Unknown Message''))"
    using a t m g bare_mention_policy(1) by (simp add: messageCreate_def)
  have s: "startsWith (customId carol_click) (js ''close_thread_'')"
    by (simp add: startsWith_def carol_click_def js_def)
  have o: "threadOwnerId carol_click = Some (js ''42'')"
    by (simp add: threadOwnerId_def carol_click_def js_def at_index_def)
  have 2: "interactionCreate interaction_expired carol_click =
     ([Failed (InteractionReply denial) (js ''Unknown interaction'')],
      Some (js ''Unknown interaction''))"
    using s o
    by (simp add: interactionCreate_def interaction_expired_def happy_def carol_click_def
        carol_def js_def)
  show ?thesis using 1 2 by simp
qed

text \<open>Neither promise resolves: each rejection is left to the process.\<close>

theorem rejection_escapes_handler_witness:
  "snd (messageCreate reply_rejects bare_mention) \<noteq> None
   \<and> snd (interactionCreate interaction_expired carol_click) \<noteq> None"
  using rejection_escapes_handler by simp

text \<open>
  These are the only two ways out. The promise of messageCreate rejects exactly when
  the validation reply of line 116 does; the promise of interactionCreate rejects
  exactly when the denial of line 166 does. Every other failure is caught.
\<close>

lemma cleanup_resolves: "snd (settle (cleanup w m)) = None"
  by (simp add: cleanup_def io_defs split: sum.splits)

lemma snd_on_error: "snd (on_error w e) = Inr (Inr ())"
  by (simp add: on_error_def)

lemma answer_resolves:
  "snd (settle (try_catch
      (and_then (tr, Inr ()) (\<lambda>_. and_then (tr', Inr ps)
         (\<lambda>parts. and_then (await (GenerateContent parts) (generateContent w parts))
                 (\<lambda>t. and_then (relay w m t) (\<lambda>_. resolve (Inr ()))))))
      (on_error w))) = None"
proof (cases "generateContent w ps")
  case (Inl e)
  then show ?thesis by (simp add: snd_on_error)
next
  case (Inr t)
  then show ?thesis
    by (cases "relay w m t"; cases "snd (relay w m t)") (simp_all add: snd_on_error)
qed

lemma contentParts_image:
  assumes "first_attachment_is_image m"
  shows "(\<exists>tr e. contentParts w m = (tr, Inl e))
       \<or> (\<exists>tr p. contentParts w m = (tr, Inr [Text (prompt_of m), p]))"
  using assms
  by (auto simp: first_attachment_is_image_def contentParts_def urlToGenerativePart_def io_defs
      split: list.splits option.splits sum.splits)

lemma messageCreate_rejects_iff:
  "snd (messageCreate w m) = Some e \<longleftrightarrow>
     (\<not> bot (author m) \<and> mentioned w m \<and> (isAllowedChannel w m \<or> isAllowedThread w m)
      \<and> channel_sendTyping w = Inr () \<and> prompt_of m = [] \<and> \<not> first_attachment_is_image m
      \<and> message_reply w validation = Inl e)"
proof (cases "\<not> bot (author m) \<and> mentioned w m \<and> (isAllowedChannel w m \<or> isAllowedThread w m)")
  case False
  then show ?thesis
    by (auto simp: messageCreate_def cleanup_resolves)
next
  case q: True
  then have mc: "messageCreate w m = settle (try_catch (generation w m) (on_error w))"
    by (simp add: qualifying_run)
  show ?thesis
  proof (cases "channel_sendTyping w")
    case (Inl e')
    with q show ?thesis by (simp add: mc generation_def snd_on_error)
  next
    case st: (Inr u)
    show ?thesis
    proof (cases "first_attachment_is_image m")
      case False
      note cp = no_image_parts [OF False, of w]
      show ?thesis
      proof (cases "prompt_of m = []")
        case True
        with q st cp False show ?thesis
          by (cases "message_reply w validation") (simp_all add: mc generation_def)
      next
        case np: False
        have "snd (messageCreate w m) = None"
          using answer_resolves [of "[Did SendTyping]" "[]" "[Text (prompt_of m)]" w m] st cp np
          by (simp add: mc generation_def)
        with np show ?thesis by simp
      qed
    next
      case True
      from contentParts_image [OF True, of w] have "snd (messageCreate w m) = None"
      proof (elim disjE exE)
        fix tr e' assume "contentParts w m = (tr, Inl e')"
        with st show ?thesis by (simp add: mc generation_def snd_on_error)
      next
        fix tr p assume cp: "contentParts w m = (tr, Inr [Text (prompt_of m), p])"
        with st answer_resolves [of "[Did SendTyping]" tr "[Text (prompt_of m), p]" w m]
        show ?thesis by (simp add: mc generation_def)
      qed
      with True show ?thesis by simp
    qed
  qed
qed

lemma interactionCreate_rejects_iff:
  "snd (interactionCreate w i) = Some e \<longleftrightarrow>
     (isButton i \<and> startsWith (customId i) (js ''close_thread_'')
      \<and> Some (user_id (interaction_user i)) \<noteq> threadOwnerId i
      \<and> interaction_reply w denial = Inl e)"
  by (cases "interaction_reply w denial"; cases "interaction_reply w confirmation";
      cases "channel_delete w")
     (auto simp: interactionCreate_def)

section \<open>Relaying the answer\<close>

text \<open>
  C3. Take a run for a message of the allowed channel (the channel itself, not a thread)
  in which the model was invoked and answered. Then \<open>startThread\<close> is called exactly
  once, on the triggering message, for a private thread. Exactly one message is sent
  into the thread that call returns: it carries the answer and the Close Session button
  whose identifier embeds the author's id (no message is sent when no thread was
  returned). The triggering message is deleted only after that send has resolved: a
  delete in the run has the resolved send before it and no delete before that send; and
  once the send has resolved, the delete follows.
\<close>

theorem session_thread_for_main_channel:
  assumes "isAllowedChannel w m" and "\<not> isThread (channel m)"
    and "Did (GenerateContent parts) \<in> set (fst (messageCreate w m))"
    and "generateContent w parts = Inr reply"
  shows "filter is_startThread (calls (fst (messageCreate w m)))
           = [StartThread (thread_name m) PrivateThread]
       \<and> filter is_threadSend (calls (fst (messageCreate w m))) =
           (case message_startThread w (thread_name m) PrivateThread of
              Inl e \<Rightarrow> []
            | Inr th \<Rightarrow> [ThreadSend th (analysis m reply) [closeButton m]])
       \<and> button_label (closeButton m) = js ''Close Session''
       \<and> button_customId (closeButton m) = js ''close_thread_'' @ user_id (author m)
       \<and> (MessageDelete \<in> set (calls (fst (messageCreate w m))) \<longrightarrow>
            (\<exists>th pre post.
                fst (messageCreate w m)
                  = pre @ Did (ThreadSend th (analysis m reply) [closeButton m]) # post
                \<and> MessageDelete \<notin> set (calls pre)))
       \<and> (\<forall>th. Did (ThreadSend th (analysis m reply) [closeButton m])
                  \<in> set (fst (messageCreate w m)) \<longrightarrow>
             MessageDelete \<in> set (calls (fst (messageCreate w m))))"
proof -
  let ?tr = "fst (messageCreate w m)"
  note ev = generated_calls(1) [OF assms(3,4)]
  note tr = generated_calls(2) [OF assms(3,4)]
  have 1: "filter is_startThread (calls ?tr) = [StartThread (thread_name m) PrivateThread]"
    unfolding tr relay_main [OF assms(1,2)]
    by (simp add: contentParts_filters failure_notice_def split: sum.splits)
  have 2: "filter is_threadSend (calls ?tr) =
           (case message_startThread w (thread_name m) PrivateThread of
              Inl e \<Rightarrow> []
            | Inr th \<Rightarrow> [ThreadSend th (analysis m reply) [closeButton m]])"
    unfolding tr relay_main [OF assms(1,2)]
    by (simp add: contentParts_filters failure_notice_def split: sum.splits)
  have 3: "MessageDelete \<in> set (calls ?tr) \<longrightarrow>
            (\<exists>th pre post. ?tr = pre @ Did (ThreadSend th (analysis m reply) [closeButton m]) # post
                \<and> MessageDelete \<notin> set (calls pre))"
  proof
    assume d: "MessageDelete \<in> set (calls ?tr)"
    show "\<exists>th pre post. ?tr = pre @ Did (ThreadSend th (analysis m reply) [closeButton m]) # post
                \<and> MessageDelete \<notin> set (calls pre)"
    proof (cases "message_startThread w (thread_name m) PrivateThread")
      case (Inl e)
      with d show ?thesis
        unfolding tr relay_main [OF assms(1,2)]
        by (simp add: contentParts_filters)
    next
      case st: (Inr th)
      show ?thesis
      proof (cases "thread_send w th (analysis m reply) [closeButton m]")
        case (Inl e)
        with d st show ?thesis
          unfolding tr relay_main [OF assms(1,2)]
          by (simp add: contentParts_filters)
      next
        case (Inr u)
        let ?pre = "Did SendTyping # fst (contentParts w m)
             @ [Did (GenerateContent parts), Did (StartThread (thread_name m) PrivateThread)]"
        have "MessageDelete \<notin> set (calls ?pre)"
          by (simp add: contentParts_filters)
        moreover
        have "\<exists>post. ?tr = ?pre @ Did (ThreadSend th (analysis m reply) [closeButton m]) # post"
          unfolding ev relay_main_events [OF assms(1,2)] using st Inr by simp
        ultimately show ?thesis by blast
      qed
    qed
  qed
  have 4: "\<forall>th. Did (ThreadSend th (analysis m reply) [closeButton m]) \<in> set ?tr \<longrightarrow>
             MessageDelete \<in> set (calls ?tr)"
    unfolding tr relay_main [OF assms(1,2)]
    unfolding ev relay_main_events [OF assms(1,2)]
    by (auto simp: contentParts_no_send on_error_no_send split: sum.splits)
  have 5: "button_label (closeButton m) = js ''Close Session''
       \<and> button_customId (closeButton m) = js ''close_thread_'' @ user_id (author m)"
    by (simp add: closeButton_def)
  from 1 2 3 4 5 show ?thesis by blast
qed

text \<open>Alice's question in the allowed channel, every call resolving.\<close>

lemma ask_main_run:
  "fst (messageCreate happy ask_main) =
     [Did SendTyping, Did (GenerateContent [Text (js ''Analyze AAPL'')]),
      Did (StartThread (thread_name ask_main) PrivateThread),
      Did (ThreadSend (js ''555'') (analysis ask_main (js ''Summary.'')) [closeButton ask_main]),
      Did MessageDelete]"
proof -
  have p: "prompt_of ask_main \<noteq> []"
    by (simp add: ask_main_prompt js_def)
  have a: "attachments ask_main = []"
    by (simp add: ask_main_def)
  have "generation happy ask_main =
     ([Did SendTyping, Did (GenerateContent [Text (js ''Analyze AAPL'')]),
       Did (StartThread (thread_name ask_main) PrivateThread),
       Did (ThreadSend (js ''555'') (analysis ask_main (js ''Summary.'')) [closeButton ask_main]),
       Did MessageDelete], Inr (Inr ()))"
    using p a ask_main_policy(3,4)
    by (simp add: generation_def contentParts_def relay_def ask_main_prompt)
       (simp add: happy_def)
  then show ?thesis
    by (simp add: qualifying_run ask_main_policy)
qed

theorem session_thread_for_main_channel_witness:
  "isAllowedChannel happy ask_main \<and> \<not> isThread (channel ask_main)
   \<and> Did (GenerateContent [Text (js ''Analyze AAPL'')]) \<in> set (fst (messageCreate happy ask_main))
   \<and> generateContent happy [Text (js ''Analyze AAPL'')] = Inr (js ''Summary.'')
   \<and> message_startThread happy (thread_name ask_main) PrivateThread = Inr (js ''555'')
   \<and> filter is_startThread (calls (fst (messageCreate happy ask_main)))
       = [StartThread (thread_name ask_main) PrivateThread]
   \<and> filter is_threadSend (calls (fst (messageCreate happy ask_main)))
       = [ThreadSend (js ''555'') (analysis ask_main (js ''Summary.'')) [closeButton ask_main]]
   \<and> Did (ThreadSend (js ''555'') (analysis ask_main (js ''Summary.'')) [closeButton ask_main])
       \<in> set (fst (messageCreate happy ask_main))
   \<and> MessageDelete \<in> set (calls (fst (messageCreate happy ask_main)))"
proof -
  have g: "Did (GenerateContent [Text (js ''Analyze AAPL'')])
      \<in> set (fst (messageCreate happy ask_main))"
    by (simp add: ask_main_run)
  have r: "generateContent happy [Text (js ''Analyze AAPL'')] = Inr (js ''Summary.'')"
    and s: "message_startThread happy (thread_name ask_main) PrivateThread = Inr (js ''555'')"
    by (simp_all add: happy_def)
  have d: "Did (ThreadSend (js ''555'') (analysis ask_main (js ''Summary.'')) [closeButton ask_main])
       \<in> set (fst (messageCreate happy ask_main))"
    by (simp add: ask_main_run)
  note t = session_thread_for_main_channel [OF ask_main_policy(3) ask_main_policy(4) g r]
  from t d have del: "MessageDelete \<in> set (calls (fst (messageCreate happy ask_main)))"
    by blast
  from t s have one: "filter is_threadSend (calls (fst (messageCreate happy ask_main)))
       = [ThreadSend (js ''555'') (analysis ask_main (js ''Summary.'')) [closeButton ask_main]]"
    by simp
  from t have "filter is_startThread (calls (fst (messageCreate happy ask_main)))
       = [StartThread (thread_name ask_main) PrivateThread]"
    by blast
  with del one d g r s ask_main_policy(3,4) show ?thesis
    by simp
qed

text \<open>
  C8. Take a run for a message in a thread whose parent is the allowed channel, in
  which the model was invoked and answered. Then the call that follows the model's is
  \<open>message.reply\<close> with the answer, to the triggering message; the run starts no
  thread, sends no message with a button, and deletes nothing.
\<close>

theorem reply_in_allowed_thread:
  assumes "isAllowedThread w m"
    and "Did (GenerateContent parts) \<in> set (fst (messageCreate w m))"
    and "generateContent w parts = Inr reply"
  shows "(\<exists>pre post. calls (fst (messageCreate w m))
              = pre @ GenerateContent parts # MessageReply (Plain reply) # post)
       \<and> filter is_startThread (calls (fst (messageCreate w m))) = []
       \<and> filter is_threadSend (calls (fst (messageCreate w m))) = []
       \<and> MessageDelete \<notin> set (calls (fst (messageCreate w m)))"
proof -
  from assms(1) have th: "isThread (channel m)"
    by (simp add: isAllowedThread_def)
  note tr = generated_calls(2) [OF assms(2,3)]
  have 1: "\<exists>pre post. calls (fst (messageCreate w m))
      = pre @ GenerateContent parts # MessageReply (Plain reply) # post"
    unfolding tr relay_thread [OF th]
    by (metis append_Cons)
  have 2: "filter is_startThread (calls (fst (messageCreate w m))) = []"
    unfolding tr relay_thread [OF th]
    by (simp add: contentParts_filters failure_notice_def split: sum.splits)
  have 3: "filter is_threadSend (calls (fst (messageCreate w m))) = []"
    unfolding tr relay_thread [OF th]
    by (simp add: contentParts_filters failure_notice_def split: sum.splits)
  have 4: "MessageDelete \<notin> set (calls (fst (messageCreate w m)))"
    unfolding tr relay_thread [OF th]
    by (simp add: contentParts_filters split: sum.splits)
  from 1 2 3 4 show ?thesis by blast
qed

lemma ask_thread_run:
  "fst (messageCreate happy ask_thread) =
     [Did SendTyping, Did (GenerateContent [Text (js ''and MSFT?'')]),
      Did (MessageReply (Plain (js ''Summary.'')))]"
proof -
  have p: "prompt_of ask_thread \<noteq> []"
    by (simp add: ask_thread_prompt js_def)
  have a: "attachments ask_thread = []"
    by (simp add: ask_thread_def)
  have "generation happy ask_thread =
     ([Did SendTyping, Did (GenerateContent [Text (js ''and MSFT?'')]),
       Did (MessageReply (Plain (js ''Summary.'')))], Inr (Inr ()))"
    using p a ask_thread_policy(4)
    by (simp add: generation_def contentParts_def relay_def ask_thread_prompt)
       (simp add: happy_def)
  then show ?thesis
    by (simp add: qualifying_run ask_thread_policy)
qed

theorem reply_in_allowed_thread_witness:
  "isAllowedThread happy ask_thread
   \<and> Did (GenerateContent [Text (js ''and MSFT?'')]) \<in> set (fst (messageCreate happy ask_thread))
   \<and> generateContent happy [Text (js ''and MSFT?'')] = Inr (js ''Summary.'')
   \<and> calls (fst (messageCreate happy ask_thread))
       = [SendTyping, GenerateContent [Text (js ''and MSFT?'')], MessageReply (Plain (js ''Summary.''))]
   \<and> filter is_startThread (calls (fst (messageCreate happy ask_thread))) = []
   \<and> filter is_threadSend (calls (fst (messageCreate happy ask_thread))) = []"
proof -
  have g: "Did (GenerateContent [Text (js ''and MSFT?'')])
      \<in> set (fst (messageCreate happy ask_thread))"
    by (simp add: ask_thread_run)
  have r: "generateContent happy [Text (js ''and MSFT?'')] = Inr (js ''Summary.'')"
    by (simp add: happy_def)
  from reply_in_allowed_thread [OF ask_thread_policy(3) g r]
  show ?thesis
    using g r ask_thread_policy(3) by (simp add: ask_thread_run)
qed

section \<open>Assembling the content parts\<close>

text \<open>
  C6. For every message that passes the policy (a non-bot author, the bot mentioned, in
  the allowed channel or a thread of it), whose prompt after line 104 is empty and whose
  first attachment, if any, is not an image: the model is never invoked; and, the typing
  indicator of line 102 having resolved, the run is that indicator followed by the
  validation reply of line 116, and nothing else.
\<close>

theorem empty_prompt_validation:
  assumes "\<not> bot (author m)" and "mentioned w m"
    and "isAllowedChannel w m \<or> isAllowedThread w m"
    and "prompt_of m = []" and "\<not> first_attachment_is_image m"
  shows "\<not> list_ex is_generate (calls (fst (messageCreate w m)))
       \<and> (channel_sendTyping w = Inr () \<longrightarrow>
            calls (fst (messageCreate w m)) = [SendTyping, MessageReply validation])
       \<and> validation = Options (js ''Please provide a prompt when you mention me!'') True"
proof -
  note mc = qualifying_run [OF assms(1-3)]
  show ?thesis
  proof (cases "channel_sendTyping w")
    case (Inl e)
    then show ?thesis
      by (simp add: mc fst_settle generation_def on_error_calls failure_notice_def validation_def)
  next
    case (Inr u)
    with assms(4) no_image_parts [OF assms(5), of w] show ?thesis
      by (cases "message_reply w validation")
         (simp_all add: mc fst_settle generation_def validation_def)
  qed
qed

theorem empty_prompt_validation_witness:
  "\<not> bot (author bare_mention) \<and> mentioned happy bare_mention
   \<and> isAllowedThread happy bare_mention \<and> prompt_of bare_mention = []
   \<and> \<not> first_attachment_is_image bare_mention \<and> channel_sendTyping happy = Inr ()
   \<and> calls (fst (messageCreate happy bare_mention)) = [SendTyping, MessageReply validation]"
proof -
  have i: "\<not> first_attachment_is_image bare_mention"
    by (simp add: first_attachment_is_image_def bare_mention_def)
  have s: "channel_sendTyping happy = Inr ()"
    by (simp add: happy_def)
  have l: "isAllowedChannel happy bare_mention \<or> isAllowedThread happy bare_mention"
    by (simp add: bare_mention_policy)
  from empty_prompt_validation
    [OF bare_mention_policy(1) bare_mention_policy(2) l bare_mention_prompt i] s
  show ?thesis
    using i by (simp add: bare_mention_policy bare_mention_prompt)
qed

text \<open>
  C5, as amended. For every message that passes the policy and whose first attachment
  has a declared content type starting with \<open>image/\<close>: after the typing indicator, the
  bytes of that attachment are fetched from its URL and, the fetch having resolved, the
  model is invoked with two content parts, the prompt and the base64 encoding of those
  bytes paired with the declared content type.
\<close>

theorem first_image_is_second_part:
  assumes "\<not> bot (author m)" and "mentioned w m"
    and "isAllowedChannel w m \<or> isAllowedThread w m"
    and "channel_sendTyping w = Inr ()"
    and "attachments m = a # others" and "contentType a = Some ct"
    and "startsWith ct (js ''image/'')"
    and "axios_get w (url a) = Inr bytes"
  shows "\<exists>rest. calls (fst (messageCreate w m)) =
           SendTyping # AxiosGet (url a)
             # GenerateContent [Text (prompt_of m), InlineData (toString_base64 bytes) ct] # rest"
proof -
  note mc = qualifying_run [OF assms(1-3)]
  from assms(5-8) have cp: "contentParts w m =
      ([Did (AxiosGet (url a))], Inr [Text (prompt_of m), InlineData (toString_base64 bytes) ct])"
    by (simp add: contentParts_def urlToGenerativePart_def)
  let ?ps = "[Text (prompt_of m), InlineData (toString_base64 bytes) ct]"
  show ?thesis
  proof (cases "generateContent w ?ps")
    case (Inl e)
    with assms(4) cp show ?thesis
      by (simp add: mc fst_settle generation_def on_error_calls)
  next
    case (Inr reply)
    with assms(4) cp show ?thesis
      by (cases "relay w m reply"; cases "snd (relay w m reply)")
         (simp_all add: mc fst_settle generation_def on_error_calls)
  qed
qed

theorem first_image_is_second_part_witness:
  "\<not> bot (author chart_first) \<and> mentioned happy chart_first \<and> isAllowedThread happy chart_first
   \<and> channel_sendTyping happy = Inr () \<and> attachments chart_first = [png]
   \<and> contentType png = Some (js ''image/png'') \<and> startsWith (js ''image/png'') (js ''image/'')
   \<and> axios_get happy (url png) = Inr [0x89, 0x50, 0x4E, 0x47]
   \<and> (\<exists>rest. calls (fst (messageCreate happy chart_first)) =
         SendTyping # AxiosGet (url png)
           # GenerateContent [Text (js ''chart?''), InlineData (js ''iVBORw=='') (js ''image/png'')]
           # rest)"
proof -
  have s: "channel_sendTyping happy = Inr ()"
    and f: "axios_get happy (url png) = Inr [0x89, 0x50, 0x4E, 0x47]"
    by (simp_all add: happy_def)
  have a: "attachments chart_first = [png]"
    by (simp add: chart_first_def)
  have c: "contentType png = Some (js ''image/png'')"
    by (simp add: png_def)
  have i: "startsWith (js ''image/png'') (js ''image/'')"
    by (simp add: startsWith_def js_def)
  have l: "isAllowedChannel happy chart_first \<or> isAllowedThread happy chart_first"
    by (simp add: chart_first_policy)
  have b: "toString_base64 [0x89, 0x50, 0x4E, 0x47] = js ''iVBORw==''"
    by (simp add: b64char_def alphabet_def js_def)
  from first_image_is_second_part [OF chart_first_policy(1) chart_first_policy(2) l s a c i f]
  show ?thesis
    using s f a c i b by (simp add: chart_first_policy chart_prompts)
qed

text \<open>
  C5 as stated fails for a message whose image is not its first attachment: with a
  report first and a chart second, nothing is fetched and the model is given the text
  part alone.
\<close>

theorem later_image_ignored_counterexample:
  "attachments chart_second = [pdf, png]
   \<and> contentType png = Some (js ''image/png'') \<and> startsWith (js ''image/png'') (js ''image/'')
   \<and> calls (fst (messageCreate happy chart_second))
       = [SendTyping, GenerateContent [Text (js ''chart?'')], MessageReply (Plain (js ''Summary.''))]"
proof -
  have p: "prompt_of chart_second \<noteq> []"
    by (simp add: chart_prompts js_def)
  have a: "attachments chart_second = [pdf, png]"
    by (simp add: chart_second_def)
  have n: "\<not> startsWith (js ''application/pdf'') (js ''image/'')"
    by (simp add: startsWith_def js_def)
  have "generation happy chart_second =
     ([Did SendTyping, Did (GenerateContent [Text (js ''chart?'')]),
       Did (MessageReply (Plain (js ''Summary.'')))], Inr (Inr ()))"
    using p a n chart_second_policy(4)
    by (simp add: generation_def contentParts_def relay_def chart_prompts pdf_def)
       (simp add: happy_def)
  then have "calls (fst (messageCreate happy chart_second))
       = [SendTyping, GenerateContent [Text (js ''chart?'')], MessageReply (Plain (js ''Summary.''))]"
    by (simp add: qualifying_run chart_second_policy)
  then show ?thesis
    using a by (simp add: png_def startsWith_def js_def)
qed

section \<open>Base64 read back\<close>

lemma regroup:
  "(n::nat) div 262144 * 262144 + n div 4096 mod 64 * 4096 + n div 64 mod 64 * 64 + n mod 64 = n"
proof -
  define q1 q2 q3 r0 r1 r2 where "q1 = n div 64" and "q2 = q1 div 64" and "q3 = q2 div 64"
    and "r0 = n mod 64" and "r1 = q1 mod 64" and "r2 = q2 mod 64"
  have a: "n div 4096 = q2" and b: "n div 262144 = q3"
    by (simp_all add: q1_def q2_def q3_def div_mult2_eq [symmetric])
  have 1: "n = q1 * 64 + r0" and 2: "q1 = q2 * 64 + r1" and 3: "q2 = q3 * 64 + r2"
    by (simp_all add: q1_def q2_def q3_def r0_def r1_def r2_def)
  have "q3 * 262144 + r2 * 4096 + r1 * 64 + r0 = ((q3 * 64 + r2) * 64 + r1) * 64 + r0"
    by (simp add: algebra_simps)
  also have "\<dots> = n"
    using 1 2 3 by simp
  finally have "q3 * 262144 + r2 * 4096 + r1 * 64 + r0 = n" .
  then show ?thesis
    unfolding a b unfolding r0_def r1_def r2_def unfolding a q1_def .
qed

lemma bytes3:
  fixes a b c :: nat
  assumes "a < 256" "b < 256" "c < 256"
  shows "(a * 65536 + b * 256 + c) div 65536 = a"
    "(a * 65536 + b * 256 + c) div 256 mod 256 = b"
    "(a * 65536 + b * 256 + c) mod 256 = c"
proof -
  have "b * 256 + c < 65536" using assms by simp
  then show "(a * 65536 + b * 256 + c) div 65536 = a"
    by (simp add: add.assoc)
  have e: "a * 65536 + b * 256 + c = c + (a * 256 + b) * 256" by simp
  have d: "(a * 65536 + b * 256 + c) div 256 = a * 256 + b"
    unfolding e using assms(3) by (simp only: div_mult_self1)
  show "(a * 65536 + b * 256 + c) div 256 mod 256 = b"
    unfolding d using assms(2) by simp
  show "(a * 65536 + b * 256 + c) mod 256 = c"
    unfolding e using assms(3) by (simp only: mod_mult_self1) simp
qed

lemma sextet: "(n::nat) < 16777216 \<Longrightarrow> n div 262144 < 64"
  by (simp add: less_mult_imp_div_less)

lemma byte_bound: "unat (a :: byte) < 256"
proof -
  have "unat a < 2 ^ LENGTH(8)" by (rule unsigned_less)
  then show ?thesis by simp
qed

text \<open>The alphabet is read back character by character.\<close>

lemma alphabet_table: "list_all (\<lambda>n. b64val (b64char n) = Some n) [0..<64]"
  by code_simp

lemma b64val_b64char: "n < 64 \<Longrightarrow> b64val (b64char n) = Some n"
  using alphabet_table by (simp add: list_all_iff)

lemma b64val_pad: "b64val 0x3D = None"
  by (simp add: b64val_def)

lemma b64char_not_pad: "n < 64 \<Longrightarrow> b64char n \<noteq> 0x3D"
  using b64val_b64char [of n] b64val_pad by auto

lemma group_of_three:
  fixes a b c :: byte
  defines "n \<equiv> unat a * 65536 + unat b * 256 + unat c"
  shows "from_base64 (b64char (n div 262144) # b64char (n div 4096 mod 64)
            # b64char (n div 64 mod 64) # b64char (n mod 64) # cs)
         = (case from_base64 cs of None \<Rightarrow> None | Some bs \<Rightarrow> Some (a # b # c # bs))"
proof -
  have ua: "unat a < 256" and ub: "unat b < 256" and uc: "unat c < 256"
    by (rule byte_bound)+
  then have "n < 16777216" by (simp add: n_def)
  then have s1: "n div 262144 < 64" by (rule sextet)
  have s2: "n div 4096 mod 64 < 64" and s3: "n div 64 mod 64 < 64" and s4: "n mod 64 < 64"
    by simp_all
  note v = b64val_b64char [OF s1] b64val_b64char [OF s2] b64val_b64char [OF s3]
    b64val_b64char [OF s4]
  note p = b64char_not_pad [OF s3] b64char_not_pad [OF s4]
  have dec: "of_nat (n div 65536) = a" "of_nat (n div 256 mod 256) = b" "of_nat (n mod 256) = c"
    unfolding n_def bytes3 [OF ua ub uc] by simp_all
  show ?thesis
    by (simp add: v p regroup dec split: option.splits)
qed

lemma group_of_one:
  fixes a :: byte
  defines "n \<equiv> unat a * 65536"
  shows "from_base64 [b64char (n div 262144), b64char (n div 4096 mod 64), 0x3D, 0x3D] = Some [a]"
proof -
  have ua: "unat a < 256" by (rule byte_bound)
  then have "n < 16777216" by (simp add: n_def)
  then have s1: "n div 262144 < 64" by (rule sextet)
  have s2: "n div 4096 mod 64 < 64" by simp
  note v = b64val_b64char [OF s1] b64val_b64char [OF s2]
  have z: "n div 64 mod 64 = 0" "n mod 64 = 0"
    by (simp_all add: n_def)
  with regroup [of n] have r: "n div 262144 * 262144 + n div 4096 mod 64 * 4096 = n"
    by simp
  have "n div 65536 = unat a" by (simp add: n_def)
  then have dec: "of_nat (n div 65536) = a" by simp
  show ?thesis
    by (simp add: v r dec)
qed

lemma group_of_two:
  fixes a b :: byte
  defines "n \<equiv> unat a * 65536 + unat b * 256"
  shows "from_base64 [b64char (n div 262144), b64char (n div 4096 mod 64),
            b64char (n div 64 mod 64), 0x3D] = Some [a, b]"
proof -
  have ua: "unat a < 256" and ub: "unat b < 256" by (rule byte_bound)+
  then have "n < 16777216" by (simp add: n_def)
  then have s1: "n div 262144 < 64" by (rule sextet)
  have s2: "n div 4096 mod 64 < 64" and s3: "n div 64 mod 64 < 64" by simp_all
  note v = b64val_b64char [OF s1] b64val_b64char [OF s2] b64val_b64char [OF s3]
  note p = b64char_not_pad [OF s3]
  have e: "n = unat a * 65536 + unat b * 256 + 0" by (simp add: n_def)
  have "n = (unat a * 1024 + unat b * 4) * 64" by (simp add: n_def)
  then have z: "n mod 64 = 0" by simp
  with regroup [of n]
  have r: "n div 262144 * 262144 + n div 4096 mod 64 * 4096 + n div 64 mod 64 * 64 = n"
    by simp
  have z0: "(0::nat) < 256" by simp
  have "n div 65536 = unat a" and "n div 256 mod 256 = unat b"
    unfolding e by (rule bytes3 [OF ua ub z0])+
  then have dec: "of_nat (n div 65536) = a" "of_nat (n div 256 mod 256) = b"
    by simp_all
  show ?thesis
    by (simp add: v p r dec)
qed

lemma from_base64_toString: "from_base64 (toString_base64 bs) = Some bs"
proof (induction bs rule: toString_base64.induct)
  case 1
  show ?case by simp
next
  case (2 a)
  show ?case using group_of_one [of a] by (simp add: Let_def)
next
  case (3 a b)
  show ?case using group_of_two [of a b] by (simp add: Let_def)
next
  case (4 a b c bs)
  show ?case using group_of_three [of a b c "toString_base64 bs"] 4 by (simp add: Let_def)
qed

text \<open>
  C9. For every URL, MIME type and byte sequence that the fetch of line 62 returns,
  \<open>urlToGenerativePart\<close> gives the inline-data part with that MIME type whose base64
  text reads back as exactly those bytes.
\<close>

theorem attachment_base64_round_trip:
  "axios_get w u = Inr bytes \<Longrightarrow>
   (\<exists>d. urlToGenerativePart w u mimeType = ([Did (AxiosGet u)], Inr (InlineData d mimeType))
      \<and> from_base64 d = Some bytes)"
  by (simp add: urlToGenerativePart_def from_base64_toString)

theorem attachment_base64_round_trip_witness:
  "axios_get happy (url png) = Inr [0x89, 0x50, 0x4E, 0x47]
   \<and> urlToGenerativePart happy (url png) (js ''image/png'')
       = ([Did (AxiosGet (url png))], Inr (InlineData (js ''iVBORw=='') (js ''image/png'')))
   \<and> from_base64 (js ''iVBORw=='') = Some [0x89, 0x50, 0x4E, 0x47]"
proof -
  have f: "axios_get happy (url png) = Inr [0x89, 0x50, 0x4E, 0x47]"
    by (simp add: happy_def)
  have b: "toString_base64 [0x89, 0x50, 0x4E, 0x47] = js ''iVBORw==''"
    by (simp add: b64char_def alphabet_def js_def)
  with f have e: "urlToGenerativePart happy (url png) (js ''image/png'')
       = ([Did (AxiosGet (url png))], Inr (InlineData (js ''iVBORw=='') (js ''image/png'')))"
    by (simp add: urlToGenerativePart_def)
  from attachment_base64_round_trip [OF f, of "js ''image/png''"] e
  have "from_base64 (js ''iVBORw=='') = Some [0x89, 0x50, 0x4E, 0x47]"
    by auto
  with f e show ?thesis by simp
qed

section \<open>The prompt\<close>

subsection \<open>The matcher finds the tokens\<close>

lemma takeWhile_digits:
  assumes "list_all isDigit ds" and "\<not> isDigit c"
  shows "takeWhile isDigit (ds @ c # r) = ds" and "dropWhile isDigit (ds @ c # r) = c # r"
  using assms by (induction ds) simp_all

lemma dropWhile_spaces:
  assumes "list_all isSpace ws" and "post = [] \<or> \<not> isSpace (hd post)"
  shows "dropWhile isSpace (ws @ post) = post"
proof -
  from assms(2) have "dropWhile isSpace post = post"
    by (cases post) auto
  with assms(1) show ?thesis
    by (induction ws) simp_all
qed

lemma not_digit: "\<not> isDigit 0x3E" "\<not> isDigit 0x21"
  by (simp_all add: isDigit_def)

text \<open>At a token, the match consumes the token and the whitespace after it.\<close>

lemma match_token:
  assumes "mention_token tok" and "list_all isSpace ws" and "post = [] \<or> \<not> isSpace (hd post)"
  shows "match_mention (tok @ ws @ post) = Some post"
  using assms(1)
proof cases
  case (plain ds)
  then obtain d ds' where ds: "ds = d # ds'" "isDigit d"
    by (cases ds) auto
  then have "d \<noteq> 0x21" using not_digit(2) by auto
  with plain ds takeWhile_digits [of ds "0x3E" "ws @ post"] not_digit(1)
    dropWhile_spaces [OF assms(2,3)]
  show ?thesis
    by (simp add: match_mention_def js_def)
next
  case (nick ds)
  with takeWhile_digits [of ds "0x3E" "ws @ post"] not_digit(1)
    dropWhile_spaces [OF assms(2,3)]
  show ?thesis
    by (simp add: match_mention_def js_def)
qed

text \<open>The match succeeds at tokens only.\<close>

lemma match_is_token:
  assumes "match_mention s = Some r"
  shows "token_at s"
proof -
  from assms obtain r0 where s: "s = 0x3C # 0x40 # r0"
    by (auto simp: match_mention_def split: list.splits if_splits)
  define r' where "r' = (case r0 of [] \<Rightarrow> r0 | c3 # r3 \<Rightarrow> if c3 = 0x21 then r3 else r0)"
  define ds where "ds = takeWhile isDigit r'"
  from assms s have ne: "ds \<noteq> []" and "\<exists>rest'. dropWhile isDigit r' = 0x3E # rest'"
    by (auto simp: match_mention_def Let_def r'_def ds_def split: list.splits if_splits)
  then obtain rest' where dw: "dropWhile isDigit r' = 0x3E # rest'" by blast
  have "r' = ds @ dropWhile isDigit r'"
    by (simp add: ds_def)
  with dw have r': "r' = ds @ 0x3E # rest'" by simp
  have dg: "list_all isDigit ds"
    by (simp add: ds_def list_all_iff) (meson set_takeWhileD)
  have "r0 = r' \<or> r0 = 0x21 # r'"
    by (auto simp: r'_def split: list.splits)
  then show ?thesis
  proof
    assume "r0 = r'"
    with s r' have "s = (js ''<@'' @ ds @ js ''>'') @ rest'"
      by (simp add: js_def)
    with mention_token.plain [OF ne dg] show ?thesis
      unfolding token_at_def by blast
  next
    assume "r0 = 0x21 # r'"
    with s r' have "s = (js ''<@!'' @ ds @ js ''>'') @ rest'"
      by (simp add: js_def)
    with mention_token.nick [OF ne dg] show ?thesis
      unfolding token_at_def by blast
  qed
qed

lemma no_token_no_match: "\<not> token_at s \<Longrightarrow> match_mention s = None"
  using match_is_token [of s] by (cases "match_mention s") auto

text \<open>The replacement leaves alone a prefix in which no token starts.\<close>

lemma replace_after_prefix:
  assumes "\<forall>k<length pre. \<not> token_at (drop k (pre @ s))"
  shows "replace_mention (pre @ s) = pre @ replace_mention s"
  using assms
proof (induction pre)
  case Nil
  show ?case by simp
next
  case (Cons c pre)
  from Cons.prems have "\<not> token_at (drop 0 ((c # pre) @ s))" by blast
  then have m: "match_mention (c # pre @ s) = None"
    by (simp add: no_token_no_match)
  have "\<forall>k<length pre. \<not> token_at (drop k (pre @ s))"
  proof (intro allI impI)
    fix k assume "k < length pre"
    then have "Suc k < length (c # pre)" by simp
    with Cons.prems have "\<not> token_at (drop (Suc k) ((c # pre) @ s))" by blast
    then show "\<not> token_at (drop k (pre @ s))" by simp
  qed
  with Cons.IH m show ?case by simp
qed

lemma replace_first_token:
  assumes "mention_token tok" and "list_all isSpace ws" and "post = [] \<or> \<not> isSpace (hd post)"
    and "\<forall>k<length pre. \<not> token_at (drop k (pre @ tok @ ws @ post))"
  shows "replace_mention (pre @ tok @ ws @ post) = pre @ post"
proof -
  from assms(1) obtain c r where "tok = c # r"
    by cases (auto simp: js_def)
  then have "replace_mention (tok @ ws @ post) = post"
    using match_token [OF assms(1-3)] by simp
  with replace_after_prefix [OF assms(4)] show ?thesis by simp
qed

lemma replace_no_token:
  assumes "\<forall>k<length s. \<not> token_at (drop k s)"
  shows "replace_mention s = s"
  using replace_after_prefix [of s "[]"] assms by simp

lemma token_starts: "token_at s \<Longrightarrow> \<exists>r. s = 0x3C # r"
  by (auto simp: token_at_def js_def elim!: mention_token.cases)

lemma no_bracket_no_token:
  assumes "0x3C \<notin> set pre"
  shows "\<forall>k<length pre. \<not> token_at (drop k (pre @ s))"
proof (intro allI impI notI)
  fix k assume k: "k < length pre" and "token_at (drop k (pre @ s))"
  then obtain r where "drop k (pre @ s) = 0x3C # r"
    using token_starts by blast
  with k have "drop k pre @ s = 0x3C # r" by simp
  moreover from k obtain c r' where "drop k pre = c # r'"
    by (cases "drop k pre") auto
  ultimately have "0x3C \<in> set (drop k pre)" by auto
  with assms show False by (meson in_set_dropD)
qed

subsection \<open>What the model is given\<close>

lemma cleanup_calls_no_generate: "GenerateContent parts \<notin> set (calls (fst (cleanup w m)))"
  by (simp add: cleanup_def io_defs split: sum.splits)

lemma relay_calls_no_generate: "GenerateContent parts \<notin> set (calls (fst (relay w m t)))"
  by (simp add: relay_def io_defs split: sum.splits)

lemma contentParts_calls_no_generate:
  "GenerateContent parts \<notin> set (calls (fst (contentParts w m)))"
  using contentParts_calls [of w m] by auto

text \<open>The model is only ever called with the parts that lines 105 to 113 assembled.\<close>

lemma generate_call_parts:
  assumes "GenerateContent parts \<in> set (calls (fst (messageCreate w m)))"
  shows "snd (contentParts w m) = Inr parts"
proof -
  from assms cleanup_calls_no_generate [of parts w m]
  have mc: "fst (messageCreate w m) = fst (try_catch (generation w m) (on_error w))"
    by (auto simp: messageCreate_def fst_settle split: if_splits)
  with assms
  have g: "GenerateContent parts \<in> set (calls (fst (try_catch (generation w m) (on_error w))))"
    by simp
  show ?thesis
  proof (cases "channel_sendTyping w")
    case (Inl e)
    with g show ?thesis
      by (simp add: generation_def on_error_calls)
  next
    case st: (Inr u)
    obtain tr r where cp: "contentParts w m = (tr, r)"
      by (cases "contentParts w m")
    from contentParts_calls_no_generate [of parts w m] cp
    have ntr: "GenerateContent parts \<notin> set (calls tr)" by simp
    show ?thesis
    proof (cases r)
      case (Inl e)
      with g st cp ntr show ?thesis
        by (simp add: generation_def on_error_calls)
    next
      case ps: (Inr ps)
      show ?thesis
      proof (cases "prompt_of m = [] \<and> length ps = 1")
        case True
        with g st cp ps ntr show ?thesis
          by (cases "message_reply w validation") (auto simp: generation_def)
      next
        case chk: False
        show ?thesis
        proof (cases "generateContent w ps")
          case (Inl e)
          with g st cp ps ntr chk show ?thesis
            by (auto simp: generation_def on_error_calls)
        next
          case gen: (Inr reply)
          obtain rt rr where rl: "relay w m reply = (rt, rr)"
            by (cases "relay w m reply")
          from relay_calls_no_generate [of parts w m reply] rl
          have nrt: "GenerateContent parts \<notin> set (calls rt)" by simp
          have "calls (fst (try_catch (generation w m) (on_error w))) =
              SendTyping # calls tr @ GenerateContent ps # calls rt
                @ (if isl rr then [MessageReply failure_notice] else [])"
            using st cp ps chk gen rl
            by (cases rr) (auto simp: generation_def on_error_calls)
          with g ntr nrt have "parts = ps" by (auto split: if_splits)
          with cp ps show ?thesis by simp
        qed
      qed
    qed
  qed
qed

lemma contentParts_head:
  "snd (contentParts w m) = Inr parts \<Longrightarrow> \<exists>others. parts = Text (prompt_of m) # others"
  by (auto simp: contentParts_def urlToGenerativePart_def io_defs
      split: sum.splits list.splits option.splits if_splits)

text \<open>Three runs in a session thread, every call resolving.\<close>

lemma tail_mention_policy:
  "\<not> bot (author tail_mention)" "mentioned happy tail_mention"
  "isAllowedThread happy tail_mention" "\<not> isAllowedChannel happy tail_mention"
  by (simp_all add: isAllowedChannel_def isAllowedThread_def mentioned_def happy_def
      tail_mention_def session_thread_def alice_def js_def)

lemma other_mention_policy:
  "\<not> bot (author other_mention)" "mentioned happy other_mention"
  "isAllowedThread happy other_mention" "\<not> isAllowedChannel happy other_mention"
  by (simp_all add: isAllowedChannel_def isAllowedThread_def mentioned_def happy_def
      other_mention_def session_thread_def alice_def js_def)

lemma reply_ping_policy:
  "\<not> bot (author reply_ping)" "mentioned happy reply_ping"
  "isAllowedThread happy reply_ping" "\<not> isAllowedChannel happy reply_ping"
  by (simp_all add: isAllowedChannel_def isAllowedThread_def mentioned_def happy_def
      reply_ping_def session_thread_def alice_def js_def)

lemma tail_mention_prompt: "prompt_of tail_mention = js ''AAPL''"
  by (simp add: regex_defs tail_mention_def)

lemma tail_mention_run:
  "calls (fst (messageCreate happy tail_mention)) =
     [SendTyping, GenerateContent [Text (js ''AAPL'')],
      MessageReply (Plain (js ''Summary.''))]"
proof -
  have p: "prompt_of tail_mention \<noteq> []"
    by (simp add: tail_mention_prompt js_def)
  have a: "attachments tail_mention = []"
    by (simp add: tail_mention_def)
  have "generation happy tail_mention =
     ([Did SendTyping, Did (GenerateContent [Text (js ''AAPL'')]),
       Did (MessageReply (Plain (js ''Summary.'')))], Inr (Inr ()))"
    using p a tail_mention_policy(4)
    by (simp add: generation_def contentParts_def relay_def tail_mention_prompt)
       (simp add: happy_def)
  then show ?thesis
    by (simp add: qualifying_run tail_mention_policy)
qed

lemma other_mention_prompt: "prompt_of other_mention = js ''AAPL <@999>''"
  by (simp add: regex_defs other_mention_def)

lemma other_mention_run:
  "calls (fst (messageCreate happy other_mention)) =
     [SendTyping, GenerateContent [Text (js ''AAPL <@999>'')],
      MessageReply (Plain (js ''Summary.''))]"
proof -
  have p: "prompt_of other_mention \<noteq> []"
    by (simp add: other_mention_prompt js_def)
  have a: "attachments other_mention = []"
    by (simp add: other_mention_def)
  have "generation happy other_mention =
     ([Did SendTyping, Did (GenerateContent [Text (js ''AAPL <@999>'')]),
       Did (MessageReply (Plain (js ''Summary.'')))], Inr (Inr ()))"
    using p a other_mention_policy(4)
    by (simp add: generation_def contentParts_def relay_def other_mention_prompt)
       (simp add: happy_def)
  then show ?thesis
    by (simp add: qualifying_run other_mention_policy)
qed

lemma reply_ping_prompt: "prompt_of reply_ping = js ''and TSLA?''"
  by (simp add: regex_defs reply_ping_def)

lemma reply_ping_run:
  "calls (fst (messageCreate happy reply_ping)) =
     [SendTyping, GenerateContent [Text (js ''and TSLA?'')],
      MessageReply (Plain (js ''Summary.''))]"
proof -
  have p: "prompt_of reply_ping \<noteq> []"
    by (simp add: reply_ping_prompt js_def)
  have a: "attachments reply_ping = []"
    by (simp add: reply_ping_def)
  have "generation happy reply_ping =
     ([Did SendTyping, Did (GenerateContent [Text (js ''and TSLA?'')]),
       Did (MessageReply (Plain (js ''Summary.'')))], Inr (Inr ()))"
    using p a reply_ping_policy(4)
    by (simp add: generation_def contentParts_def relay_def reply_ping_prompt)
       (simp add: happy_def)
  then show ?thesis
    by (simp add: qualifying_run reply_ping_policy)
qed

text \<open>
  C4, as amended. For every invocation of the model, the first content part is the text
  part holding the prompt of line 104, and that prompt is the message text with its
  first mention token (the leftmost \<open><@digits>\<close> or \<open><@!digits>\<close>, of whatever
  user and wherever it stands) and the whitespace after that token removed, then
  trimmed. A text in which no mention token occurs is only trimmed.
\<close>

theorem prompt_removes_first_mention:
  assumes "GenerateContent parts \<in> set (calls (fst (messageCreate w m)))"
  shows "(\<exists>others. parts = Text (prompt_of m) # others)
       \<and> (\<forall>pre tok ws post.
             content m = pre @ tok @ ws @ post \<and> mention_token tok
             \<and> (\<forall>k<length pre. \<not> token_at (drop k (content m)))
             \<and> list_all isSpace ws \<and> (post = [] \<or> \<not> isSpace (hd post))
             \<longrightarrow> prompt_of m = trim (pre @ post))
       \<and> ((\<forall>k<length (content m). \<not> token_at (drop k (content m)))
             \<longrightarrow> prompt_of m = trim (content m))"
proof -
  have 1: "\<exists>others. parts = Text (prompt_of m) # others"
    using generate_call_parts [OF assms] by (rule contentParts_head)
  have 2: "prompt_of m = trim (pre @ post)"
    if "content m = pre @ tok @ ws @ post" and "mention_token tok"
      and "\<forall>k<length pre. \<not> token_at (drop k (content m))"
      and "list_all isSpace ws" and "post = [] \<or> \<not> isSpace (hd post)"
    for pre tok ws post
    using that replace_first_token [of tok ws post pre]
    by (simp add: prompt_of_def)
  have 3: "(\<forall>k<length (content m). \<not> token_at (drop k (content m)))
             \<longrightarrow> prompt_of m = trim (content m)"
    using replace_no_token [of "content m"] by (simp add: prompt_of_def)
  from 1 2 3 show ?thesis by blast
qed

text \<open>
  The mention at the end of \<open>AAPL <@999>\<close> is removed and the rest trimmed; the text
  \<open>and TSLA?\<close>, which holds no token, is passed as it is.
\<close>

theorem prompt_removes_first_mention_witness:
  "GenerateContent [Text (js ''AAPL'')] \<in> set (calls (fst (messageCreate happy tail_mention)))
   \<and> content tail_mention = js ''AAPL '' @ js ''<@999>'' @ [] @ []
   \<and> mention_token (js ''<@999>'')
   \<and> prompt_of tail_mention = trim (js ''AAPL '' @ [])
   \<and> trim (js ''AAPL '' @ []) = js ''AAPL''
   \<and> GenerateContent [Text (js ''and TSLA?'')]
       \<in> set (calls (fst (messageCreate happy reply_ping)))
   \<and> prompt_of reply_ping = trim (content reply_ping)
   \<and> trim (content reply_ping) = js ''and TSLA?''"
proof -
  have g1: "GenerateContent [Text (js ''AAPL'')]
      \<in> set (calls (fst (messageCreate happy tail_mention)))"
    and g2: "GenerateContent [Text (js ''and TSLA?'')]
      \<in> set (calls (fst (messageCreate happy reply_ping)))"
    by (simp_all add: tail_mention_run reply_ping_run)
  have c: "content tail_mention = js ''AAPL '' @ js ''<@999>'' @ [] @ []"
    by (simp add: tail_mention_def js_def)
  have "mention_token (js ''<@'' @ js ''999'' @ js ''>'')"
    by (rule mention_token.plain) (simp_all add: js_def isDigit_def)
  then have t: "mention_token (js ''<@999>'')"
    by (simp add: js_def)
  have "0x3C \<notin> set (js ''AAPL '')"
    by (simp add: js_def)
  from no_bracket_no_token [OF this, of "js ''<@999>'' @ [] @ []"] c
  have n: "\<forall>k<length (js ''AAPL ''). \<not> token_at (drop k (content tail_mention))"
    by simp
  have w: "list_all isSpace []" and e: "[] = [] \<or> \<not> isSpace (hd [])"
    by simp_all
  from prompt_removes_first_mention [OF g1] c t n w e
  have p1: "prompt_of tail_mention = trim (js ''AAPL '' @ [])"
    by blast
  have t1: "trim (js ''AAPL '' @ []) = js ''AAPL''"
    by (simp add: trim_def isSpace_def js_def)
  have "0x3C \<notin> set (content reply_ping)"
    by (simp add: reply_ping_def js_def)
  from no_bracket_no_token [OF this, of "[]"]
  have "\<forall>k<length (content reply_ping). \<not> token_at (drop k (content reply_ping))"
    by simp
  with prompt_removes_first_mention [OF g2]
  have p2: "prompt_of reply_ping = trim (content reply_ping)"
    by blast
  have t2: "trim (content reply_ping) = js ''and TSLA?''"
    by (simp add: reply_ping_def trim_def isSpace_def js_def)
  from g1 c t p1 t1 g2 p2 t2 show ?thesis by simp
qed

text \<open>
  C4 as stated fails twice over. In \<open>AAPL <@999>\<close> the bot's mention is not at the
  start and is removed all the same; in \<open><@123> AAPL <@999>\<close> the mention removed is
  another user's, and the bot's own stays in the prompt. Stripping only the bot's
  leading mention would have left both texts as they are.
\<close>

theorem prompt_strips_any_mention_counterexample:
  "client_user_id happy = js ''999''
   \<and> GenerateContent [Text (js ''AAPL'')] \<in> set (calls (fst (messageCreate happy tail_mention)))
   \<and> spec_strip_leading_bot_mention (js ''999'') (content tail_mention) = js ''AAPL <@999>''
   \<and> js ''AAPL'' \<noteq> js ''AAPL <@999>''
   \<and> GenerateContent [Text (js ''AAPL <@999>'')]
       \<in> set (calls (fst (messageCreate happy other_mention)))
   \<and> spec_strip_leading_bot_mention (js ''999'') (content other_mention)
       = js ''<@123> AAPL <@999>''
   \<and> js ''AAPL <@999>'' \<noteq> js ''<@123> AAPL <@999>''"
proof -
  have "client_user_id happy = js ''999''"
    by (simp add: happy_def)
  moreover have "spec_strip_leading_bot_mention (js ''999'') (content tail_mention)
      = js ''AAPL <@999>''"
    by (simp add: spec_strip_leading_bot_mention_def startsWith_def tail_mention_def js_def)
  moreover have "spec_strip_leading_bot_mention (js ''999'') (content other_mention)
      = js ''<@123> AAPL <@999>''"
    by (simp add: spec_strip_leading_bot_mention_def startsWith_def other_mention_def js_def)
  moreover have "js ''AAPL'' \<noteq> js ''AAPL <@999>''"
    and "js ''AAPL <@999>'' \<noteq> js ''<@123> AAPL <@999>''"
    by (simp_all add: js_def)
  ultimately show ?thesis
    by (simp add: tail_mention_run other_mention_run)
qed

end
